theory Spec2Isabelle
  imports Main
begin

section \<open>C values and library functions used by the lock helper\<close>

text \<open>
  The program is C. Its \<open>int\<close> values are modelled as HOL integers, with the wrap-around
  of a 32-bit two's complement \<open>int\<close> written out by \<open>int32\<close> at the three places where
  a value can leave the range: the cast \<open>(int)strtol(...)\<close>, the product
  \<open>timeout * 10\<close> and the counters \<open>time++\<close>. \<open>long\<close> is 64 bits wide.
\<close>

definition int32 :: "int \<Rightarrow> int" where
  "int32 x = (x + 2147483648) mod 4294967296 - 2147483648"

definition LONG_MAX :: int where
  "LONG_MAX = 9223372036854775807"

definition LONG_MIN :: int where
  "LONG_MIN = - 9223372036854775808"

text \<open>The values of \<open>signal.h\<close> on Linux (x86, ARM).\<close>

definition SIGUSR1 :: int where
  "SIGUSR1 = 10"

definition SIGUSR2 :: int where
  "SIGUSR2 = 12"

definition PARENT_TO :: int where
  "PARENT_TO = SIGUSR1"

definition CHILD_OK :: int where
  "CHILD_OK = SIGUSR1"

definition CHILD_FAIL :: int where
  "CHILD_FAIL = SIGUSR2"

definition UNLOCK :: int where
  "UNLOCK = SIGUSR2"

definition MAX_PID_LEN :: nat where
  "MAX_PID_LEN = 10"

subsection \<open>C strings\<close>

definition NUL :: char where
  "NUL = CHR 0x00"

definition newline :: char where
  "newline = CHR 0x0A"

text \<open>
  A buffer that is zero-initialised and one byte longer than what is stored into it always
  holds a terminated string: the bytes up to the first NUL.
\<close>

definition c_str :: "string \<Rightarrow> string" where
  "c_str buf = takeWhile (\<lambda>c. c \<noteq> NUL) buf"

text \<open>\<open>*end\<close> for an end pointer into a C string: the terminator when nothing is left.\<close>

definition deref :: "string \<Rightarrow> char" where
  "deref rest = (case rest of [] \<Rightarrow> NUL | c # _ \<Rightarrow> c)"

definition isspace :: "char \<Rightarrow> bool" where
  "isspace c = (c = CHR 0x20 \<or> c = CHR 0x09 \<or> c = CHR 0x0A \<or> c = CHR 0x0B
                \<or> c = CHR 0x0C \<or> c = CHR 0x0D)"

definition isdigit :: "char \<Rightarrow> bool" where
  "isdigit c = (48 \<le> (of_char c :: nat) \<and> (of_char c :: nat) \<le> 57)"

definition digit_val :: "char \<Rightarrow> int" where
  "digit_val c = int (of_char c) - 48"

subsection \<open>strtol, base 10\<close>

text \<open>
  \<open>strtol(s, &end, 10)\<close> of the C library: white space is skipped, one sign is accepted,
  then the longest run of decimal digits is converted. Without a digit the result is 0 and
  \<open>end\<close> is \<open>s\<close> itself. A value outside \<open>long\<close> is clamped. The result is the value and
  the rest of the string at \<open>end\<close>.
\<close>

fun strtol_digits :: "int \<Rightarrow> string \<Rightarrow> int \<times> string" where
  "strtol_digits acc [] = (acc, [])"
| "strtol_digits acc (c # cs) =
     (if isdigit c then strtol_digits (acc * 10 + digit_val c) cs else (acc, c # cs))"

definition strtol_sign :: "string \<Rightarrow> bool \<times> string" where
  "strtol_sign s =
     (case s of
        [] \<Rightarrow> (False, [])
      | c # cs \<Rightarrow>
          if c = CHR ''-'' then (True, cs)
          else if c = CHR ''+'' then (False, cs)
          else (False, c # cs))"

definition clamp_long :: "int \<Rightarrow> int" where
  "clamp_long v = (if v > LONG_MAX then LONG_MAX else if v < LONG_MIN then LONG_MIN else v)"

definition strtol :: "string \<Rightarrow> int \<times> string" where
  "strtol s =
     (let (neg, ds) = strtol_sign (dropWhile isspace s)
      in if isdigit (deref ds)
         then (let (v, rest) = strtol_digits 0 ds
               in (clamp_long (if neg then - v else v), rest))
         else (0, s))"

subsection \<open>snprintf with the format \<open>%i\<close>\<close>

definition digit_char :: "nat \<Rightarrow> char" where
  "digit_char d = ''0123456789'' ! d"

fun dec_nat :: "nat \<Rightarrow> string" where
  "dec_nat n =
     (if n < 10 then [digit_char n]
      else dec_nat (n div 10) @ [digit_char (n mod 10)])"

definition dec_int :: "int \<Rightarrow> string" where
  "dec_int i = (if i < 0 then CHR ''-'' # dec_nat (nat (- i)) else dec_nat (nat i))"

text \<open>
  \<open>snprintf(buf, size, "%i", i)\<close> stores at most \<open>size - 1\<close> characters and the
  terminator; the result here is the string then held by \<open>buf\<close>.
\<close>

definition snprintf_i :: "nat \<Rightarrow> int \<Rightarrow> string" where
  "snprintf_i size' i = take (size' - 1) (dec_int i)"

declare dec_nat.simps [simp del]

section \<open>Processes, their environment and what they do\<close>

text \<open>
  A run of one process is a function of what the operating system answers (the record
  \<open>env\<close>) and produces the list of the system calls and messages of the process, in
  order (the field \<open>trace\<close> of \<open>world\<close>), and an outcome. The messages of \<open>printf\<close>
  are recorded by their format string, without the arguments and the final line feed.
\<close>

datatype lockf_cmd = F_LOCK | F_TLOCK | F_TEST

datatype flock_op = LOCK_EX | LOCK_EX_NB | LOCK_UN

datatype event =
    Printf string
  | Open "string option"
  | Lockf lockf_cmd
  | Flock flock_op
  | Lseek nat
  | Ftruncate nat
  | Write string
  | Read nat
  | Kill int int
  | Sleep nat
  | Usleep nat
  | Signal int
  | Fork

text \<open>
  \<open>child\<close> is the global variable of the program. \<open>content\<close> and \<open>offset\<close> are the
  bytes of the target file and the position of the descriptor the process has opened on it.
  \<open>ticks\<close> counts the calls of \<open>sleep\<close> and \<open>kills\<close> the calls of \<open>kill\<close>, to index the
  answers of the environment.
\<close>

record world =
  child :: int
  trace :: "event list"
  content :: string
  offset :: nat
  ticks :: nat
  kills :: nat

text \<open>
  \<open>open_ret\<close>, \<open>lockf_ret\<close>, \<open>flock_ret\<close> and \<open>fork_ret\<close> are the return values of the
  calls; \<open>read_ret\<close> is the bytes that \<open>read\<close> delivers (\<open>None\<close> when it fails);
  \<open>kill_ret k\<close> is the return value of the \<open>k\<close>-th call of \<open>kill\<close> of the process
  (from 0); \<open>delivered k\<close> is the signal that arrives during the \<open>k\<close>-th \<open>sleep\<close>, if
  any. \<open>getpid_ret\<close> is the process id of the process that runs \<open>main\<close>, and
  \<open>child_pid\<close> the one of the process created by \<open>fork\<close>.
\<close>

record env =
  getpid_ret :: int
  getppid_ret :: int
  child_pid :: int
  fork_ret :: int
  open_ret :: int
  lockf_ret :: int
  flock_ret :: int
  read_ret :: "string option"
  kill_ret :: "nat \<Rightarrow> int"
  delivered :: "nat \<Rightarrow> int option"

text \<open>
  A function of the program returns a value, or the process ends inside it by \<open>exit\<close>, or
  the fuel given to its loop is used up while the loop is still running.
\<close>

datatype 'a outcome = Returns 'a | Exits int | Out_of_fuel

definition emit :: "event \<Rightarrow> world \<Rightarrow> world" where
  "emit ev w = w\<lparr>trace := trace w @ [ev]\<rparr>"

definition printf :: "string \<Rightarrow> world \<Rightarrow> world" where
  "printf fmt w = emit (Printf fmt) w"

definition kill :: "env \<Rightarrow> int \<Rightarrow> int \<Rightarrow> world \<Rightarrow> int \<times> world"
  where
  "kill e pid sig w = (kill_ret e (kills w), (emit (Kill pid sig) w)\<lparr>kills := kills w + 1\<rparr>)"

definition lseek :: "nat \<Rightarrow> world \<Rightarrow> world" where
  "lseek pos w = (emit (Lseek pos) w)\<lparr>offset := pos\<rparr>"

definition ftruncate :: "nat \<Rightarrow> world \<Rightarrow> world" where
  "ftruncate len w = (emit (Ftruncate len) w)\<lparr>content := take len (content w)\<rparr>"

text \<open>A complete \<open>write\<close> at the current position (the program ignores its result).\<close>

definition write_fd :: "string \<Rightarrow> world \<Rightarrow> world" where
  "write_fd buf w =
     (emit (Write buf) w)
       \<lparr>content := take (offset w) (content w) @ buf @ drop (offset w + length buf) (content w),
        offset := offset w + length buf\<rparr>"

subsection \<open>The signal handlers\<close>

definition child_sig_handler :: "int \<Rightarrow> world \<Rightarrow> unit outcome \<times> world" where
  "child_sig_handler sig w =
     (if sig = PARENT_TO then (Exits 1, printf ''Parent process signalled timeout - exiting'' w)
      else if sig = UNLOCK then (Exits 0, printf ''Unlocking'' w)
      else (Returns (), printf ''Child caught unknown signal: %i'' w))"

definition parent_sig_handler :: "int \<Rightarrow> world \<Rightarrow> unit outcome \<times> world" where
  "parent_sig_handler sig w =
     (if sig = CHILD_OK
      then (Exits 0, printf ''Child has successfully locked file - exiting'' w)
      else if sig = CHILD_FAIL then (Exits 1, printf ''Child process failed to lock file'' w)
      else (Returns (), printf ''Parent caught unknown signal: %i'' w))"

definition sig_handler :: "int \<Rightarrow> world \<Rightarrow> unit outcome \<times> world" where
  "sig_handler sig w =
     (if child w \<noteq> 0 then child_sig_handler sig w else parent_sig_handler sig w)"

text \<open>
  \<open>sleep(1)\<close>: a signal that arrives while the process sleeps runs the handler; when the
  handler returns, so does \<open>sleep\<close>.
\<close>

definition sleep :: "env \<Rightarrow> nat \<Rightarrow> world \<Rightarrow> unit outcome \<times> world" where
  "sleep e secs w =
     (let w1 = (emit (Sleep secs) w)\<lparr>ticks := ticks w + 1\<rparr>
      in case delivered e (ticks w) of
           None \<Rightarrow> (Returns (), w1)
         | Some sig \<Rightarrow> sig_handler sig w1)"

subsection \<open>The parent process\<close>

text \<open>
  The loop \<open>while (timeout == 0 || time++ < timeout) sleep(1);\<close> of \<open>parent_loop\<close>. The
  increment is not evaluated when \<open>timeout\<close> is 0. The result is the final \<open>time\<close>.
\<close>

fun parent_wait :: "env \<Rightarrow> nat \<Rightarrow> int \<Rightarrow> int \<Rightarrow> world \<Rightarrow> int outcome \<times> world" where
  "parent_wait e 0 timeout time w = (Out_of_fuel, w)"
| "parent_wait e (Suc fuel) timeout time w =
     (if timeout = 0 then
        (case sleep e 1 w of
           (Returns _, w1) \<Rightarrow> parent_wait e fuel timeout time w1
         | (Exits n, w1) \<Rightarrow> (Exits n, w1)
         | (Out_of_fuel, w1) \<Rightarrow> (Out_of_fuel, w1))
      else if time < timeout then
        (case sleep e 1 w of
           (Returns _, w1) \<Rightarrow> parent_wait e fuel timeout (int32 (time + 1)) w1
         | (Exits n, w1) \<Rightarrow> (Exits n, w1)
         | (Out_of_fuel, w1) \<Rightarrow> (Out_of_fuel, w1))
      else (Returns (int32 (time + 1)), w))"

definition parent_loop :: "env \<Rightarrow> nat \<Rightarrow> int \<Rightarrow> int \<Rightarrow> world \<Rightarrow> int outcome \<times> world" where
  "parent_loop e fuel cpid timeout w =
     (case parent_wait e fuel timeout 0 w of
        (Returns _, w1) \<Rightarrow> (Returns 0, snd (kill e cpid SIGUSR1 w1))
      | (Exits n, w1) \<Rightarrow> (Exits n, w1)
      | (Out_of_fuel, w1) \<Rightarrow> (Out_of_fuel, w1))"

subsection \<open>The child process\<close>

text \<open>
  The loop \<open>while (kill(script_pid, 0) == 0) sleep(1);\<close> at the end of \<open>child_loop\<close>.
\<close>

fun child_idle :: "env \<Rightarrow> nat \<Rightarrow> int \<Rightarrow> world \<Rightarrow> unit outcome \<times> world" where
  "child_idle e 0 script_pid w = (Out_of_fuel, w)"
| "child_idle e (Suc fuel) script_pid w =
     (case kill e script_pid 0 w of
        (r, w1) \<Rightarrow>
          if r = 0 then
            (case sleep e 1 w1 of
               (Returns _, w2) \<Rightarrow> child_idle e fuel script_pid w2
             | (Exits n, w2) \<Rightarrow> (Exits n, w2)
             | (Out_of_fuel, w2) \<Rightarrow> (Out_of_fuel, w2))
          else (Returns (), w1))"

text \<open>\<open>child_loop\<close> of \<open>lock_file.c\<close>.\<close>

definition child_loop ::
  "env \<Rightarrow> nat \<Rightarrow> string \<Rightarrow> int \<Rightarrow> int \<Rightarrow> int \<Rightarrow> world \<Rightarrow> int outcome \<times> world" where
  "child_loop e fuel filename ppid script_pid no_block w =
     (let pid = getpid_ret e;
          w1 = w\<lparr>child := 1\<rparr>;
          w2 = emit (Open (Some filename)) w1;
          fd = open_ret e
      in if fd < 0
         then (Returns 1, snd (kill e ppid SIGUSR2 (printf ''Failed to open file %s: %s'' w2)))
         else
           (let w3 = emit (Lockf (if no_block \<noteq> 0 then F_TLOCK else F_LOCK)) w2
            in if lockf_ret e = - 1
               then (Returns 1,
                     snd (kill e ppid SIGUSR2 (printf ''Failed to lock file %s (%i): %s'' w3)))
               else
                 (let pid_str = snprintf_i MAX_PID_LEN pid;
                      w4 = lseek 0 w3;
                      w5 = ftruncate 0 w4;
                      w6 = write_fd (c_str pid_str) w5;
                      w7 = snd (kill e ppid SIGUSR1 w6)
                  in case child_idle e fuel script_pid w7 of
                       (Returns _, w8) \<Rightarrow> (Returns 1, w8)
                     | (Exits n, w8) \<Rightarrow> (Exits n, w8)
                     | (Out_of_fuel, w8) \<Rightarrow> (Out_of_fuel, w8))))"

subsection \<open>Unlocking\<close>

text \<open>
  The bytes that \<open>read(fd, pid_str, MAX_PID_LEN)\<close> stored, and the pid that
  \<open>unlock_file\<close> takes from them; 0 stands for no pid.
\<close>

definition read_pid :: "string option \<Rightarrow> int" where
  "read_pid r =
     (case r of
        None \<Rightarrow> 0
      | Some bytes \<Rightarrow>
          (let pid_str = take MAX_PID_LEN bytes
           in if length pid_str > 0
              then (let (v, rest) = strtol (c_str pid_str);
                        pid = int32 v
                    in if deref rest \<noteq> NUL \<and> deref rest \<noteq> newline then 0 else pid)
              else 0))"

definition usleep :: "nat \<Rightarrow> world \<Rightarrow> world" where
  "usleep us w = emit (Usleep us) w"

text \<open>
  The loop \<open>while (time++ < timeout || timeout == 0) { ... }\<close> of \<open>unlock_file\<close>; the
  result is \<open>time\<close> when the loop is left. The increment belongs to the test, so that it
  also happens when the test fails.
\<close>

fun unlock_poll ::
  "env \<Rightarrow> nat \<Rightarrow> int \<Rightarrow> int \<Rightarrow> int \<Rightarrow> int \<Rightarrow> world \<Rightarrow> int outcome \<times> world" where
  "unlock_poll e 0 pid locked timeout time w = (Out_of_fuel, w)"
| "unlock_poll e (Suc fuel) pid locked timeout time w =
     (let time1 = int32 (time + 1)
      in if time < timeout \<or> timeout = 0
         then (case kill e pid SIGUSR2 w of
                 (r, w1) \<Rightarrow>
                   if r < 0
                   then (Returns time1,
                         if time1 = 1
                         then printf ''Failed to send signal to child process %i: %s'' w1
                         else w1)
                   else if locked = 0 then (Returns time1, w1)
                   else unlock_poll e fuel pid locked timeout time1 (usleep (1000 + 100) w1))
         else (Returns time1, w))"

text \<open>
  What follows the reading of the pid in \<open>unlock_file\<close>; \<open>timeout\<close> is the value before
  the multiplication.
\<close>

definition unlock_signal ::
  "env \<Rightarrow> nat \<Rightarrow> int \<Rightarrow> int \<Rightarrow> int \<Rightarrow> world \<Rightarrow> int outcome \<times> world" where
  "unlock_signal e fuel pid locked timeout w =
     (let timeout1 = int32 (timeout * 10)
      in case unlock_poll e fuel pid locked timeout1 0 w of
           (Returns time, w1) \<Rightarrow>
             if time = timeout1 then (Returns 1, printf ''Timed out'' w1) else (Returns 0, w1)
         | (Exits n, w1) \<Rightarrow> (Exits n, w1)
         | (Out_of_fuel, w1) \<Rightarrow> (Out_of_fuel, w1))"

text \<open>
  The part of \<open>unlock_file\<close> that both source files share: open, test the lock, read the
  pid. The result is \<open>Inl\<close> the value returned early, or \<open>Inr\<close> of \<open>locked\<close> and the pid.
\<close>

definition unlock_find :: "env \<Rightarrow> string option \<Rightarrow> world \<Rightarrow> (int + int \<times> int) \<times> world" where
  "unlock_find e filename w =
     (let w1 = emit (Open filename) w;
          fd = open_ret e
      in if fd < 0 then (Inl 1, printf ''Failed to open file %s: %s'' w1)
         else
           (let w2 = emit (Lockf F_TEST) w1;
                locked = lockf_ret e;
                w3 = (if locked = 0 then printf ''File %s was not locked'' w2 else w2);
                w4 = emit (Read MAX_PID_LEN) w3;
                pid = read_pid (read_ret e)
            in if pid = 0 then (Inl 1, printf ''Failed to read pid from file %s'' w4)
               else (Inr (locked, pid), w4)))"

text \<open>\<open>unlock_file\<close> of \<open>lock_file.c\<close>.\<close>

definition unlock_file ::
  "env \<Rightarrow> nat \<Rightarrow> string \<Rightarrow> int \<Rightarrow> int \<Rightarrow> world \<Rightarrow> int outcome \<times> world" where
  "unlock_file e fuel filename timeout no_block w =
     (case unlock_find e (Some filename) w of
        (Inl r, w1) \<Rightarrow> (Returns r, w1)
      | (Inr (locked, pid), w1) \<Rightarrow> unlock_signal e fuel pid locked timeout w1)"

subsection \<open>main of lock\_file.c\<close>

text \<open>
  The command line is what \<open>getopt_long\<close> makes of it: the list of its return values,
  each with its \<open>optarg\<close>, up to the final \<open>-1\<close>, and the argument \<open>argv[optind]\<close> when
  there is one. \<open>getopt_long\<close> returns \<open>?\<close> for an option it does not know.
\<close>

fun parse_opts ::
  "(char \<times> string) list \<Rightarrow> int \<times> int \<times> int \<Rightarrow> world \<Rightarrow> (int + int \<times> int \<times> int) \<times> world"
  where
  "parse_opts [] st w = (Inr st, w)"
| "parse_opts ((opt, optarg) # os) (timeout, no_block, unlock) w =
     (if opt = CHR ''t'' then
        (let (v, rest) = strtol optarg;
             timeout1 = int32 v
         in if deref rest \<noteq> NUL \<or> timeout1 < 0
            then (Inl 1, printf ''Timeout argument should be a positive integer'' w)
            else parse_opts os (timeout1, no_block, unlock) w)
      else if opt = CHR ''n'' then parse_opts os (timeout, 1, unlock) w
      else if opt = CHR ''u'' then parse_opts os (timeout, no_block, 1) w
      else (Inl 1, printf ''Unrecognised option %c'' w))"

definition signal :: "int \<Rightarrow> world \<Rightarrow> world" where
  "signal sig w = emit (Signal sig) w"

definition fork :: "world \<Rightarrow> world" where
  "fork w = emit Fork w"

definition main ::
  "env \<Rightarrow> nat \<Rightarrow> (char \<times> string) list \<Rightarrow> string option \<Rightarrow> world \<Rightarrow> int outcome \<times> world"
  where
  "main e fuel opts arg w =
     (case parse_opts opts (- 1, 0, 0) w of
        (Inl r, w1) \<Rightarrow> (Returns r, w1)
      | (Inr (timeout, no_block, unlock), w1) \<Rightarrow>
          if no_block \<noteq> 0 \<and> timeout \<ge> 0
          then (Returns 1, printf ''Cannot set no-block and timeout together'' w1)
          else
            (let timeout1 = (if timeout = - 1 then 0 else timeout)
             in case arg of
                  None \<Rightarrow> (Returns 1, printf ''No filename given'' w1)
                | Some filename \<Rightarrow>
                    if unlock \<noteq> 0 then unlock_file e fuel filename timeout1 no_block w1
                    else
                      (let w2 = signal SIGUSR2 (signal SIGUSR1 w1);
                           pid = getpid_ret e;
                           ppid = getppid_ret e;
                           w3 = fork w2;
                           cpid = fork_ret e
                       in if cpid = 0
                          then child_loop (e\<lparr>getpid_ret := child_pid e\<rparr>) fuel filename
                                 pid ppid no_block w3
                          else parent_loop e fuel cpid timeout1 w3)))"

section \<open>The second source file: lock requests and lock kinds\<close>

text \<open>
  The second source file holds the same program with a \<open>struct lock_request\<close>, three
  lock kinds and a target that may be an open descriptor. \<open>parent_loop\<close> and the signal
  handlers are the same text as in \<open>lock_file.c\<close>; the functions that differ carry the
  suffix \<open>_req\<close> here.
\<close>

datatype l_type = FLOCK | FCNTL | LOCKF

record lock_request =
  req_filename :: "string option"
  req_fd :: int
  req_type :: l_type
  req_no_block :: int
  req_timeout :: int

definition lock_descriptor :: "env \<Rightarrow> lock_request \<Rightarrow> world \<Rightarrow> int \<times> world" where
  "lock_descriptor e req w =
     (case req_type req of
        LOCKF \<Rightarrow>
          (let w1 = emit (Lockf (if req_no_block req \<noteq> 0 then F_TLOCK else F_LOCK)) w
           in if lockf_ret e = - 1
              then (0, printf ''Failed to lock file (fd = %i): %s'' w1)
              else (1, w1))
      | FLOCK \<Rightarrow>
          (let w1 = emit (Flock (if req_no_block req \<noteq> 0 then LOCK_EX_NB else LOCK_EX)) w
           in if flock_ret e = - 1
              then (0, printf ''Failed to lock file (fd = %i): %s'' w1)
              else (1, w1))
      | FCNTL \<Rightarrow> (1, w))"

definition unlock_descriptor :: "env \<Rightarrow> int \<Rightarrow> world \<Rightarrow> int \<times> world" where
  "unlock_descriptor e fd w =
     (let w1 = emit (Flock LOCK_UN) w
      in if flock_ret e = - 1
         then (0, printf ''Failed to unlock file (fd = %i): %s'' w1)
         else (1, printf ''Unlocked file descriptor %i'' w1))"

definition child_loop_req ::
  "env \<Rightarrow> nat \<Rightarrow> lock_request \<Rightarrow> int \<Rightarrow> int \<Rightarrow> world \<Rightarrow> int outcome \<times> world" where
  "child_loop_req e fuel req ppid script_pid w =
     (let pid = getpid_ret e;
          w1 = w\<lparr>child := 1\<rparr>;
          w2 = emit (Open (req_filename req)) w1;
          req1 = req\<lparr>req_fd := open_ret e\<rparr>
      in if req_fd req1 < 0
         then (Returns 1, snd (kill e ppid SIGUSR2 (printf ''Failed to open file %s: %s'' w2)))
         else
           (case lock_descriptor e req1 (printf ''Locking file %s'' w2) of
              (locked, w3) \<Rightarrow>
                if locked = 0 then (Returns 1, snd (kill e ppid SIGUSR2 w3))
                else
                  (let pid_str = snprintf_i MAX_PID_LEN pid;
                       w4 = lseek 0 w3;
                       w5 = ftruncate 0 w4;
                       w6 = write_fd (c_str pid_str) w5;
                       w7 = snd (kill e ppid SIGUSR1 w6)
                   in case child_idle e fuel script_pid w7 of
                        (Returns _, w8) \<Rightarrow> (Returns 1, w8)
                      | (Exits n, w8) \<Rightarrow> (Exits n, w8)
                      | (Out_of_fuel, w8) \<Rightarrow> (Out_of_fuel, w8))))"

definition unlock_file_req ::
  "env \<Rightarrow> nat \<Rightarrow> lock_request \<Rightarrow> world \<Rightarrow> int outcome \<times> world" where
  "unlock_file_req e fuel req w =
     (case unlock_find e (req_filename req) w of
        (Inl r, w1) \<Rightarrow> (Returns r, w1)
      | (Inr (locked, pid), w1) \<Rightarrow>
          (let req1 = (if req_no_block req \<noteq> 0 then req\<lparr>req_timeout := 0\<rparr> else req)
           in unlock_signal e fuel pid locked (req_timeout req1) w1))"

definition tolower :: "char \<Rightarrow> char" where
  "tolower c =
     (if 65 \<le> (of_char c :: nat) \<and> (of_char c :: nat) \<le> 90
      then char_of ((of_char c :: nat) + 32) else c)"

definition strcasecmp :: "string \<Rightarrow> string \<Rightarrow> bool" where
  "strcasecmp a b = (map tolower a = map tolower b)"

fun parse_opts_req ::
  "(char \<times> string) list \<Rightarrow> lock_request \<times> int \<Rightarrow> world \<Rightarrow> (int + lock_request \<times> int) \<times> world"
  where
  "parse_opts_req [] st w = (Inr st, w)"
| "parse_opts_req ((opt, optarg) # os) (req, unlock) w =
     (if opt = CHR ''t'' then
        (let (v, rest) = strtol optarg;
             req1 = req\<lparr>req_timeout := int32 v\<rparr>
         in if deref rest \<noteq> NUL \<or> req_timeout req1 < 0
            then (Inl 1, printf ''Timeout argument should be a positive integer'' w)
            else parse_opts_req os (req1, unlock) w)
      else if opt = CHR ''n'' then parse_opts_req os (req\<lparr>req_no_block := 1\<rparr>, unlock) w
      else if opt = CHR ''u'' then parse_opts_req os (req, 1) w
      else if opt = CHR ''T'' then
        (if strcasecmp optarg ''lockf''
         then parse_opts_req os (req\<lparr>req_type := LOCKF\<rparr>, unlock) w
         else if strcasecmp optarg ''flock''
         then parse_opts_req os (req\<lparr>req_type := FLOCK\<rparr>, unlock) w
         else if strcasecmp optarg ''fcntl''
         then parse_opts_req os (req\<lparr>req_type := FCNTL\<rparr>, unlock) w
         else (Inl 1, printf ''Invalid type: %s'' w))
      else (Inl 1, printf ''Unrecognised option: %c'' w))"

text \<open>\<open>struct lock_request req = {0}\<close>: every field is zero, the type is \<open>FLOCK\<close>.\<close>

definition req0 :: lock_request where
  "req0 = \<lparr>req_filename = None, req_fd = 0, req_type = FLOCK, req_no_block = 0, req_timeout = 0\<rparr>"

definition main_req ::
  "env \<Rightarrow> nat \<Rightarrow> (char \<times> string) list \<Rightarrow> string option \<Rightarrow> world \<Rightarrow> int outcome \<times> world"
  where
  "main_req e fuel opts arg w =
     (case parse_opts_req opts (req0, 0) w of
        (Inl r, w1) \<Rightarrow> (Returns r, w1)
      | (Inr (req, unlock), w1) \<Rightarrow>
          if req_no_block req \<noteq> 0 \<and> req_timeout req \<ge> 0
          then (Returns 1, printf ''Cannot set no-block and timeout together'' w1)
          else
            (let req1 = (if req_timeout req = - 1 then req\<lparr>req_timeout := 0\<rparr> else req)
             in case arg of
                  None \<Rightarrow> (Returns 1, printf ''No filename given'' w1)
                | Some a \<Rightarrow>
                    (let (v, rest) = strtol a;
                         req2 = (if deref rest \<noteq> NUL
                                 then req1\<lparr>req_fd := 0, req_filename := Some a\<rparr>
                                 else req1\<lparr>req_fd := int32 v\<rparr>)
                     in if unlock \<noteq> 0
                        then (if req_fd req2 \<noteq> 0
                              then (case unlock_descriptor e (req_fd req2) w1 of
                                      (r, w2) \<Rightarrow> (Returns r, w2))
                              else unlock_file_req e fuel req2 w1)
                        else if \<not> (req_fd req2 \<noteq> 0 \<and> req_type req2 = FLOCK)
                        then
                          (let w2 = signal SIGUSR2 (signal SIGUSR1 w1);
                               pid = getpid_ret e;
                               ppid = getppid_ret e;
                               w3 = fork w2;
                               cpid = fork_ret e
                           in if cpid = 0
                              then child_loop_req (e\<lparr>getpid_ret := child_pid e\<rparr>) fuel req2
                                     pid ppid w3
                              else parent_loop e fuel cpid (req_timeout req2) w3)
                        else
                          (case lock_descriptor e req2
                                  (printf ''Locking file descriptor %i'' w1) of
                             (r, w2) \<Rightarrow> if r = 0 then (Returns 1, w2) else (Returns 0, w2)))))"

text \<open>The state in which a process starts.\<close>

definition world0 :: "string \<Rightarrow> world" where
  "world0 bytes = \<lparr>child = 0, trace = [], content = bytes, offset = 0, ticks = 0, kills = 0\<rparr>"

text \<open>
  An environment in which every call succeeds, nothing is read and no signal arrives; the
  examples below change single fields of it.
\<close>

definition env0 :: env where
  "env0 =
     \<lparr>getpid_ret = 100, getppid_ret = 50, child_pid = 101, fork_ret = 101, open_ret = 3,
      lockf_ret = 0, flock_ret = 0, read_ret = None, kill_ret = (\<lambda>k. 0),
      delivered = (\<lambda>k. None)\<rparr>"

text \<open>The probe of the invoking script succeeds \<open>n\<close> times, then fails.\<close>

definition env_gone :: "nat \<Rightarrow> env" where
  "env_gone n = env0\<lparr>kill_ret := (\<lambda>k. if k \<le> n then 0 else - 1)\<rparr>"

text \<open>The file is locked by another process and holds \<open>bytes\<close>; every signal can be sent.\<close>

definition env_held :: "string \<Rightarrow> env" where
  "env_held bytes = env0\<lparr>lockf_ret := - 1, read_ret := Some bytes\<rparr>"

subsection \<open>Reading a trace\<close>

definition is_open :: "event \<Rightarrow> bool" where
  "is_open ev = (case ev of Open _ \<Rightarrow> True | _ \<Rightarrow> False)"

definition is_lock :: "event \<Rightarrow> bool" where
  "is_lock ev = (case ev of Lockf _ \<Rightarrow> True | Flock _ \<Rightarrow> True | _ \<Rightarrow> False)"

definition is_kill :: "event \<Rightarrow> bool" where
  "is_kill ev = (case ev of Kill _ _ \<Rightarrow> True | _ \<Rightarrow> False)"

text \<open>What a run that started in \<open>w\<close> and ended in \<open>w'\<close> has added to the trace.\<close>

definition new_events :: "world \<Rightarrow> world \<Rightarrow> event list" where
  "new_events w w' = drop (length (trace w)) (trace w')"

text \<open>
  The world of the child after it has opened and locked the file (with the events \<open>evs\<close>),
  written its pid and signalled the parent: where its idle loop starts.
\<close>

definition locked_world :: "env \<Rightarrow> int \<Rightarrow> event list \<Rightarrow> world \<Rightarrow> world" where
  "locked_world e ppid evs w =
     snd (kill e ppid SIGUSR1
       (write_fd (c_str (snprintf_i MAX_PID_LEN (getpid_ret e)))
         (ftruncate 0 (lseek 0 (w\<lparr>child := 1, trace := trace w @ evs\<rparr>)))))"

section \<open>Basic facts\<close>

lemmas prim_defs = emit_def printf_def kill_def lseek_def ftruncate_def write_fd_def usleep_def
  signal_def fork_def

lemmas ev_defs = is_open_def is_lock_def is_kill_def new_events_def

lemma env0_simps:
  "getpid_ret env0 = 100" "getppid_ret env0 = 50" "child_pid env0 = 101" "fork_ret env0 = 101"
  "open_ret env0 = 3" "lockf_ret env0 = 0" "flock_ret env0 = 0" "read_ret env0 = None"
  "kill_ret env0 k = 0" "delivered env0 k = None"
  by (simp_all add: env0_def)

lemma int32_id: "- 2147483648 \<le> x \<Longrightarrow> x < 2147483648 \<Longrightarrow> int32 x = x"
  by (simp add: int32_def)

lemma sleep_quiet:
  "delivered e (ticks w) = None \<Longrightarrow>
   sleep e s w = (Returns (), (emit (Sleep s) w)\<lparr>ticks := ticks w + 1\<rparr>)"
  by (simp add: sleep_def)

lemmas handler_defs = sig_handler_def child_sig_handler_def parent_sig_handler_def

lemma sig_handler_trace: "\<exists>m. trace (snd (sig_handler sig w)) = trace w @ [Printf m]"
  by (simp add: handler_defs prim_defs)

lemma sig_handler_fields:
  "content (snd (sig_handler sig w)) = content w"
  "child (snd (sig_handler sig w)) = child w"
  "kills (snd (sig_handler sig w)) = kills w"
  "ticks (snd (sig_handler sig w)) = ticks w"
  by (simp_all add: handler_defs prim_defs)

lemma sleep_trace:
  "\<exists>evs. trace (snd (sleep e s w)) = trace w @ evs
     \<and> (\<forall>ev \<in> set evs. \<not> is_lock ev \<and> \<not> is_open ev \<and> \<not> is_kill ev)"
proof (cases "delivered e (ticks w)")
  case None
  then have "trace (snd (sleep e s w)) = trace w @ [Sleep s]"
    by (simp add: sleep_def prim_defs)
  then show ?thesis by (intro exI[of _ "[Sleep s]"]) (simp add: ev_defs)
next
  case (Some sig)
  let ?w1 = "(emit (Sleep s) w)\<lparr>ticks := ticks w + 1\<rparr>"
  from sig_handler_trace[of sig ?w1] obtain m where
    "trace (snd (sig_handler sig ?w1)) = trace ?w1 @ [Printf m]" by blast
  with Some have "trace (snd (sleep e s w)) = trace w @ [Sleep s, Printf m]"
    by (simp add: sleep_def prim_defs)
  then show ?thesis by (intro exI[of _ "[Sleep s, Printf m]"]) (simp add: ev_defs)
qed

lemma sleep_fields:
  "content (snd (sleep e s w)) = content w"
  "child (snd (sleep e s w)) = child w"
  "kills (snd (sleep e s w)) = kills w"
  "ticks (snd (sleep e s w)) = ticks w + 1"
  by (simp_all add: sleep_def Let_def sig_handler_fields prim_defs split: option.split)

lemma sleep_benign:
  "delivered e (ticks w) \<noteq> Some SIGUSR1 \<Longrightarrow> delivered e (ticks w) \<noteq> Some SIGUSR2 \<Longrightarrow>
   fst (sleep e s w) = Returns ()"
  by (auto simp add: sleep_def Let_def handler_defs PARENT_TO_def UNLOCK_def CHILD_OK_def
      CHILD_FAIL_def split: option.split)

lemma new_events_append: "trace w' = trace w @ evs \<Longrightarrow> new_events w w' = evs"
  by (simp add: new_events_def)

lemma outcome_case_snd:
  "snd (case r of (Returns _, w8) \<Rightarrow> (Returns (1::int), w8) | (Exits n, w8) \<Rightarrow> (Exits n, w8)
        | (Out_of_fuel, w8) \<Rightarrow> (Out_of_fuel, w8)) = snd r"
  by (cases r; cases "fst r") auto

lemma outcome_case_fst:
  "fst (case r of (Returns _, w8) \<Rightarrow> (Returns (1::int), w8) | (Exits n, w8) \<Rightarrow> (Exits n, w8)
        | (Out_of_fuel, w8) \<Rightarrow> (Out_of_fuel, w8)) =
   (case fst r of Returns _ \<Rightarrow> Returns 1 | Exits n \<Rightarrow> Exits n | Out_of_fuel \<Rightarrow> Out_of_fuel)"
  by (cases r; cases "fst r") auto

lemma env_gone_simps:
  "open_ret (env_gone n) = 3" "lockf_ret (env_gone n) = 0" "flock_ret (env_gone n) = 0"
  "kill_ret (env_gone n) k = (if k \<le> n then 0 else - 1)" "delivered (env_gone n) k = None"
  "getpid_ret (env_gone n) = 100"
  by (simp_all add: env_gone_def env0_def)

section \<open>The signal handler\<close>

text \<open>
  Claim C8. The handler shared by both processes maps the signals by role. In the parent
  (\<open>child = 0\<close>) SIGUSR1 ends the process with status 0 and SIGUSR2 with status 1; in the
  child SIGUSR1 ends it with status 1 and SIGUSR2 with status 0. Every other signal value,
  in either role, prints one message and the handler returns.
\<close>

theorem sig_handler_role_mapping:
  "(child w = 0 \<longrightarrow>
      fst (sig_handler SIGUSR1 w) = Exits 0 \<and> fst (sig_handler SIGUSR2 w) = Exits 1)
   \<and> (child w \<noteq> 0 \<longrightarrow>
      fst (sig_handler SIGUSR1 w) = Exits 1 \<and> fst (sig_handler SIGUSR2 w) = Exits 0)
   \<and> (sig \<noteq> SIGUSR1 \<and> sig \<noteq> SIGUSR2 \<longrightarrow>
      fst (sig_handler sig w) = Returns ()
      \<and> trace (snd (sig_handler sig w)) =
          trace w @ [Printf (if child w \<noteq> 0 then ''Child caught unknown signal: %i''
                             else ''Parent caught unknown signal: %i'')])"
  by (simp add: sig_handler_def child_sig_handler_def parent_sig_handler_def PARENT_TO_def
      UNLOCK_def CHILD_OK_def CHILD_FAIL_def SIGUSR1_def SIGUSR2_def printf_def emit_def)

theorem sig_handler_role_mapping_witness:
  "child (world0 []) = 0
   \<and> fst (sig_handler SIGUSR1 (world0 [])) = Exits 0
   \<and> fst (sig_handler SIGUSR2 (world0 [])) = Exits 1
   \<and> child ((world0 [])\<lparr>child := 1\<rparr>) \<noteq> 0
   \<and> fst (sig_handler SIGUSR1 ((world0 [])\<lparr>child := 1\<rparr>)) = Exits 1
   \<and> fst (sig_handler SIGUSR2 ((world0 [])\<lparr>child := 1\<rparr>)) = Exits 0
   \<and> (15::int) \<noteq> SIGUSR1 \<and> (15::int) \<noteq> SIGUSR2
   \<and> fst (sig_handler 15 (world0 [])) = Returns ()
   \<and> fst (sig_handler 15 ((world0 [])\<lparr>child := 1\<rparr>)) = Returns ()"
  using sig_handler_role_mapping [of "world0 []" 15]
    sig_handler_role_mapping [of "(world0 [])\<lparr>child := 1\<rparr>" 15]
  by (simp add: world0_def SIGUSR1_def SIGUSR2_def)

section \<open>The parent's wait\<close>

text \<open>
  With a timeout above 0 and no signal during the first \<open>timeout\<close> sleeps, the loop of
  \<open>parent_loop\<close> sleeps \<open>timeout\<close> times and ends.
\<close>

lemma parent_wait_quiet:
  "n = nat (timeout - time) \<Longrightarrow> 0 \<le> time \<Longrightarrow> time \<le> timeout \<Longrightarrow> timeout < 2147483647 \<Longrightarrow>
   timeout \<noteq> 0 \<Longrightarrow> \<forall>k < n. delivered e (ticks w + k) = None \<Longrightarrow> n < fuel \<Longrightarrow>
   parent_wait e fuel timeout time w =
     (Returns (timeout + 1),
      w\<lparr>trace := trace w @ replicate n (Sleep 1), ticks := ticks w + n\<rparr>)"
proof (induction n arbitrary: time w fuel)
  case 0
  then obtain f where f: "fuel = Suc f" by (cases fuel) auto
  from 0 have "time = timeout" by simp
  with 0 f show ?case by (simp add: int32_id)
next
  case (Suc n)
  then obtain f where f: "fuel = Suc f" by (cases fuel) auto
  from Suc.prems have lt: "time < timeout" by linarith
  from Suc.prems have q: "delivered e (ticks w) = None" by (metis add.right_neutral zero_less_Suc)
  let ?w1 = "(emit (Sleep 1) w)\<lparr>ticks := ticks w + 1\<rparr>"
  have n: "n = nat (timeout - (time + 1))" using Suc.prems by linarith
  have d: "\<forall>k<n. delivered e (ticks ?w1 + k) = None"
  proof (intro allI impI)
    fix k assume "k < n"
    then have "Suc k < Suc n" by simp
    with Suc.prems(6) have "delivered e (ticks w + Suc k) = None" by blast
    then show "delivered e (ticks ?w1 + k) = None" by (simp add: emit_def)
  qed
  have ih: "parent_wait e f timeout (time + 1) ?w1 =
     (Returns (timeout + 1),
      ?w1\<lparr>trace := trace ?w1 @ replicate n (Sleep 1), ticks := ticks ?w1 + n\<rparr>)"
    using Suc.IH[OF n _ _ Suc.prems(4) Suc.prems(5) d, of f] Suc.prems f lt by simp
  have i32: "int32 (time + 1) = time + 1" using Suc.prems lt by (simp add: int32_id)
  show ?case using f lt Suc.prems(5) ih
    by (simp add: sleep_quiet[OF q] i32 emit_def replicate_app_Cons_same)
qed

text \<open>
  So \<open>parent_loop\<close> then sends SIGUSR1 to the child and returns 0, for every timeout
  above 0.
\<close>

lemma parent_loop_timeout:
  assumes "0 < timeout" "timeout < 2147483647"
    and "\<forall>k < nat timeout. delivered e (ticks w + k) = None"
    and "nat timeout < fuel"
  shows "parent_loop e fuel cpid timeout w =
     (Returns 0,
      w\<lparr>trace := trace w @ replicate (nat timeout) (Sleep 1) @ [Kill cpid SIGUSR1],
        ticks := ticks w + nat timeout, kills := kills w + 1\<rparr>)"
proof -
  have "parent_wait e fuel timeout 0 w =
     (Returns (timeout + 1),
      w\<lparr>trace := trace w @ replicate (nat timeout) (Sleep 1), ticks := ticks w + nat timeout\<rparr>)"
    using assms by (intro parent_wait_quiet) auto
  then show ?thesis by (simp add: parent_loop_def kill_def emit_def)
qed

text \<open>
  Claim C1. With \<open>timeout > 0\<close> and no signal delivered before the budget is used up, the
  parent sends SIGUSR1 to the child and then ends with exit status 1. The code sends the
  signal, and then \<open>parent_loop\<close> returns 0, which \<open>main\<close> returns as the exit status
  in both source files: here for \<open>-t 5\<close> and the child 101.
\<close>

theorem parent_loop_timeout_returns_0:
  "parent_loop env0 6 101 5 (world0 []) =
     (Returns 0,
      \<lparr>child = 0, trace = [Sleep 1, Sleep 1, Sleep 1, Sleep 1, Sleep 1, Kill 101 SIGUSR1],
       content = [], offset = 0, ticks = 5, kills = 1\<rparr>)
   \<and> fst (main env0 6 [(CHR ''t'', ''5'')] (Some ''lockfile'') (world0 [])) = Returns 0
   \<and> fst (main_req env0 6 [(CHR ''t'', ''5'')] (Some ''lockfile'') (world0 [])) = Returns 0"
proof -
  have t: "strtol ''5'' = (5, [])"
    by (simp add: strtol_def strtol_sign_def isspace_def isdigit_def deref_def digit_val_def
        clamp_long_def LONG_MAX_def LONG_MIN_def)
  have s: "strtol ''lockfile'' = (0, ''lockfile'')"
    by (simp add: strtol_def strtol_sign_def isspace_def isdigit_def deref_def)
  have p: "parent_loop env0 6 101 5 w =
     (Returns 0,
      w\<lparr>trace := trace w @ replicate (nat 5) (Sleep 1) @ [Kill 101 SIGUSR1],
        ticks := ticks w + nat 5, kills := kills w + 1\<rparr>)" for w
    by (rule parent_loop_timeout) (simp_all add: env0_def)
  have "parent_loop env0 6 101 5 (world0 []) =
     (Returns 0,
      \<lparr>child = 0, trace = [Sleep 1, Sleep 1, Sleep 1, Sleep 1, Sleep 1, Kill 101 SIGUSR1],
       content = [], offset = 0, ticks = 5, kills = 1\<rparr>)"
    unfolding p by (simp add: world0_def eval_nat_numeral)
  moreover have "fst (main env0 6 [(CHR ''t'', ''5'')] (Some ''lockfile'') (world0 [])) = Returns 0"
    by (simp add: main_def t p deref_def NUL_def int32_def env0_simps Let_def)
  moreover have
    "fst (main_req env0 6 [(CHR ''t'', ''5'')] (Some ''lockfile'') (world0 [])) = Returns 0"
    by (simp add: main_req_def t s p deref_def NUL_def int32_def env0_simps req0_def Let_def)
  ultimately show ?thesis by simp
qed

section \<open>The child process\<close>

text \<open>The idle loop of the child touches neither the file nor the flag and takes no lock.\<close>

lemma child_idle_keeps:
  "\<exists>evs. trace (snd (child_idle e fuel sp w)) = trace w @ evs
     \<and> (\<forall>ev \<in> set evs. \<not> is_lock ev \<and> \<not> is_open ev)
     \<and> content (snd (child_idle e fuel sp w)) = content w
     \<and> child (snd (child_idle e fuel sp w)) = child w"
proof (induction fuel arbitrary: w)
  case 0
  show ?case by simp
next
  case (Suc fuel)
  let ?w1 = "snd (kill e sp 0 w)"
  have w1: "trace ?w1 = trace w @ [Kill sp 0]" "content ?w1 = content w" "child ?w1 = child w"
    by (simp_all add: prim_defs)
  show ?case
  proof (cases "fst (kill e sp 0 w) = 0")
    case False
    then have "child_idle e (Suc fuel) sp w = (Returns (), ?w1)"
      by (simp add: split_beta)
    with w1 show ?thesis by (intro exI[of _ "[Kill sp 0]"]) (simp add: ev_defs)
  next
    case True
    let ?w2 = "snd (sleep e 1 ?w1)"
    from sleep_trace[of e 1 ?w1] obtain evs where
      s: "trace ?w2 = trace ?w1 @ evs"
      and q: "\<forall>ev \<in> set evs. \<not> is_lock ev \<and> \<not> is_open ev \<and> \<not> is_kill ev" by blast
    have w2: "trace ?w2 = trace w @ Kill sp 0 # evs" "content ?w2 = content w"
      "child ?w2 = child w"
      using s w1 by (simp_all add: sleep_fields)
    show ?thesis
    proof (cases "fst (sleep e 1 ?w1)")
      case (Returns u)
      then have eq: "child_idle e (Suc fuel) sp w = child_idle e fuel sp ?w2"
        using True by (simp add: split_beta)
      from Suc.IH[of ?w2] obtain evs2 where
        "trace (snd (child_idle e fuel sp ?w2)) = trace ?w2 @ evs2"
        "\<forall>ev \<in> set evs2. \<not> is_lock ev \<and> \<not> is_open ev"
        "content (snd (child_idle e fuel sp ?w2)) = content ?w2"
        "child (snd (child_idle e fuel sp ?w2)) = child ?w2" by blast
      with eq w2 q show ?thesis
        by (intro exI[of _ "Kill sp 0 # evs @ evs2"]) (auto simp add: ev_defs)
    next
      case (Exits n)
      then have "child_idle e (Suc fuel) sp w = (Exits n, ?w2)"
        using True by (simp add: split_beta)
      with w2 q show ?thesis
        by (intro exI[of _ "Kill sp 0 # evs"]) (auto simp add: ev_defs)
    next
      case Out_of_fuel
      then have "child_idle e (Suc fuel) sp w = (Out_of_fuel, ?w2)"
        using True by (simp add: split_beta)
      with w2 q show ?thesis
        by (intro exI[of _ "Kill sp 0 # evs"]) (auto simp add: ev_defs)
    qed
  qed
qed

text \<open>Once the file is open and locked, \<open>child_loop\<close> is its idle loop.\<close>

lemma locked_world_fields:
  "trace (locked_world e ppid evs w) =
     trace w @ evs @ [Lseek 0, Ftruncate 0, Write (c_str (snprintf_i MAX_PID_LEN (getpid_ret e))),
                      Kill ppid SIGUSR1]"
  "content (locked_world e ppid evs w) = c_str (snprintf_i MAX_PID_LEN (getpid_ret e))"
  "child (locked_world e ppid evs w) = 1"
  "kills (locked_world e ppid evs w) = kills w + 1"
  "ticks (locked_world e ppid evs w) = ticks w"
  by (simp_all add: locked_world_def prim_defs)

lemma child_loop_locked:
  "0 \<le> open_ret e \<Longrightarrow> lockf_ret e \<noteq> - 1 \<Longrightarrow>
   child_loop e fuel filename ppid sp no_block w =
     (case child_idle e fuel sp
        (locked_world e ppid
           [Open (Some filename), Lockf (if no_block \<noteq> 0 then F_TLOCK else F_LOCK)] w) of
        (Returns _, w8) \<Rightarrow> (Returns 1, w8)
      | (Exits n, w8) \<Rightarrow> (Exits n, w8)
      | (Out_of_fuel, w8) \<Rightarrow> (Out_of_fuel, w8))"
  by (simp add: child_loop_def locked_world_def Let_def prim_defs)

lemma child_loop_req_locked:
  "0 \<le> open_ret e \<Longrightarrow> fst (lock_descriptor e req w0) \<noteq> 0 \<Longrightarrow>
   child_loop_req e fuel req ppid sp w =
     (case child_idle e fuel sp
        (locked_world e ppid
           (Open (req_filename req) # Printf ''Locking file %s'' #
            (case req_type req of
               LOCKF \<Rightarrow> [Lockf (if req_no_block req \<noteq> 0 then F_TLOCK else F_LOCK)]
             | FLOCK \<Rightarrow> [Flock (if req_no_block req \<noteq> 0 then LOCK_EX_NB else LOCK_EX)]
             | FCNTL \<Rightarrow> [])) w) of
        (Returns _, w8) \<Rightarrow> (Returns 1, w8)
      | (Exits n, w8) \<Rightarrow> (Exits n, w8)
      | (Out_of_fuel, w8) \<Rightarrow> (Out_of_fuel, w8))"
  by (cases "req_type req")
    (auto simp add: child_loop_req_def lock_descriptor_def locked_world_def Let_def prim_defs
      split: if_splits)

text \<open>
  Claim C7. When the open fails, or the lock attempt fails (also a non-blocking one that
  would block), the child sends SIGUSR2 to the parent exactly once, sends nothing else, and
  returns 1; the file is opened once and the lock is tried at most once. This holds for
  \<open>child_loop\<close> of both source files.
\<close>

theorem child_failure_signals_once:
  "(open_ret e < 0 \<or> lockf_ret e = - 1 \<longrightarrow>
      (let r = child_loop e fuel filename ppid script_pid no_block w;
           evs = new_events w (snd r)
       in fst r = Returns 1
          \<and> filter is_kill evs = [Kill ppid SIGUSR2]
          \<and> length (filter is_open evs) = 1
          \<and> length (filter is_lock evs) \<le> 1))
   \<and> (open_ret e < 0 \<or> (req_type req = LOCKF \<and> lockf_ret e = - 1)
        \<or> (req_type req = FLOCK \<and> flock_ret e = - 1) \<longrightarrow>
      (let r = child_loop_req e fuel req ppid script_pid w;
           evs = new_events w (snd r)
       in fst r = Returns 1
          \<and> filter is_kill evs = [Kill ppid SIGUSR2]
          \<and> length (filter is_open evs) = 1
          \<and> length (filter is_lock evs) \<le> 1))"
  by (auto simp add: child_loop_def child_loop_req_def lock_descriptor_def Let_def prim_defs ev_defs)

theorem child_failure_signals_once_witness:
  "open_ret (env0\<lparr>open_ret := - 1\<rparr>) < 0
   \<and> fst (child_loop (env0\<lparr>open_ret := - 1\<rparr>) 3 ''lockfile'' 100 50 0 (world0 []))
       = Returns 1
   \<and> filter is_kill (new_events (world0 [])
         (snd (child_loop (env0\<lparr>open_ret := - 1\<rparr>) 3 ''lockfile'' 100 50 0 (world0 []))))
       = [Kill 100 SIGUSR2]
   \<and> lockf_ret (env0\<lparr>lockf_ret := - 1\<rparr>) = - 1
   \<and> req_type (req0\<lparr>req_type := LOCKF\<rparr>) = LOCKF
   \<and> fst (child_loop (env0\<lparr>lockf_ret := - 1\<rparr>) 3 ''lockfile'' 100 50 1 (world0 []))
       = Returns 1
   \<and> filter is_kill (new_events (world0 [])
         (snd (child_loop (env0\<lparr>lockf_ret := - 1\<rparr>) 3 ''lockfile'' 100 50 1 (world0 []))))
       = [Kill 100 SIGUSR2]
   \<and> fst (child_loop_req (env0\<lparr>lockf_ret := - 1\<rparr>) 3 (req0\<lparr>req_type := LOCKF\<rparr>) 100 50
         (world0 [])) = Returns 1
   \<and> filter is_kill (new_events (world0 [])
         (snd (child_loop_req (env0\<lparr>lockf_ret := - 1\<rparr>) 3 (req0\<lparr>req_type := LOCKF\<rparr>) 100 50
            (world0 []))))
       = [Kill 100 SIGUSR2]"
  using child_failure_signals_once [of "env0\<lparr>lockf_ret := - 1\<rparr>" 3 "''lockfile''" 100 50 1
      "world0 []" "req0\<lparr>req_type := LOCKF\<rparr>"]
    child_failure_signals_once [of "env0\<lparr>open_ret := - 1\<rparr>" 3 "''lockfile''" 100 50 0
      "world0 []" "req0\<lparr>req_type := LOCKF\<rparr>"]
  by (simp add: env0_def req0_def Let_def)

text \<open>
  Claim C9. For a request of type \<open>FCNTL\<close>, \<open>lock_descriptor\<close> makes no call at all and
  returns 1. A child with that lock kind therefore sends SIGUSR1 to the parent, the signal of
  a successful lock, and its whole run contains no locking call.
\<close>

theorem fcntl_takes_no_lock:
  "req_type req = FCNTL \<longrightarrow>
     lock_descriptor e req w = (1, w)
     \<and> (0 \<le> open_ret e \<longrightarrow>
          (let evs = new_events w (snd (child_loop_req e fuel req ppid sp w))
           in Kill ppid SIGUSR1 \<in> set evs \<and> filter is_lock evs = []))"
proof (intro impI conjI)
  assume t: "req_type req = FCNTL"
  then show ld: "lock_descriptor e req w = (1, w)" by (simp add: lock_descriptor_def)
  assume o: "0 \<le> open_ret e"
  let ?w7 = "locked_world e ppid [Open (req_filename req), Printf ''Locking file %s''] w"
  from ld have "fst (lock_descriptor e req w) \<noteq> 0" by simp
  from child_loop_req_locked[OF o this, of fuel ppid sp w] t
  have eq: "snd (child_loop_req e fuel req ppid sp w) = snd (child_idle e fuel sp ?w7)"
    by (simp add: outcome_case_snd)
  from child_idle_keeps[of e fuel sp ?w7] obtain evs where
    tr: "trace (snd (child_idle e fuel sp ?w7)) = trace ?w7 @ evs"
    and nl: "\<forall>ev \<in> set evs. \<not> is_lock ev \<and> \<not> is_open ev" by blast
  let ?new = "[Open (req_filename req), Printf ''Locking file %s'', Lseek 0, Ftruncate 0,
     Write (c_str (snprintf_i MAX_PID_LEN (getpid_ret e))), Kill ppid SIGUSR1] @ evs"
  have "trace (snd (child_loop_req e fuel req ppid sp w)) = trace w @ ?new"
    using eq tr by (simp add: locked_world_fields)
  then have ne: "new_events w (snd (child_loop_req e fuel req ppid sp w)) = ?new"
    by (rule new_events_append)
  have "filter is_lock evs = []" using nl by (simp add: filter_empty_conv)
  then show "let evs = new_events w (snd (child_loop_req e fuel req ppid sp w))
    in Kill ppid SIGUSR1 \<in> set evs \<and> filter is_lock evs = []"
    unfolding ne Let_def by (simp add: is_lock_def)
qed

theorem fcntl_takes_no_lock_witness:
  "req_type (req0\<lparr>req_type := FCNTL, req_filename := Some ''lockfile''\<rparr>) = FCNTL
   \<and> 0 \<le> open_ret env0
   \<and> lock_descriptor env0 (req0\<lparr>req_type := FCNTL, req_filename := Some ''lockfile''\<rparr>)
        (world0 []) = (1, world0 [])
   \<and> Kill 100 SIGUSR1 \<in> set (new_events (world0 [])
        (snd (child_loop_req env0 3 (req0\<lparr>req_type := FCNTL, req_filename := Some ''lockfile''\<rparr>)
           100 50 (world0 []))))"
  using fcntl_takes_no_lock [of "req0\<lparr>req_type := FCNTL, req_filename := Some ''lockfile''\<rparr>"
      env0 "world0 []" 3 100 50]
  by (simp add: req0_def env0_def Let_def)

section \<open>The invoking script is gone\<close>

lemma child_idle_ends:
  "\<forall>k<n. kill_ret e (kills w + k) = 0 \<Longrightarrow> kill_ret e (kills w + n) \<noteq> 0 \<Longrightarrow>
   \<forall>k<n. delivered e (ticks w + k) \<noteq> Some SIGUSR1 \<and> delivered e (ticks w + k) \<noteq> Some SIGUSR2 \<Longrightarrow>
   n < fuel \<Longrightarrow>
   fst (child_idle e fuel sp w) = Returns ()
   \<and> kills (snd (child_idle e fuel sp w)) = kills w + n + 1
   \<and> ticks (snd (child_idle e fuel sp w)) = ticks w + n"
proof (induction n arbitrary: w fuel)
  case 0
  then obtain f where f: "fuel = Suc f" by (cases fuel) auto
  from 0 f show ?case by (simp add: prim_defs)
next
  case (Suc n)
  then obtain f where f: "fuel = Suc f" by (cases fuel) auto
  let ?w1 = "snd (kill e sp 0 w)"
  let ?w2 = "snd (sleep e 1 ?w1)"
  have "kill_ret e (kills w + 0) = 0" using Suc.prems(1) by blast
  then have k0: "fst (kill e sp 0 w) = 0" by (simp add: prim_defs)
  have w1: "kills ?w1 = kills w + 1" "ticks ?w1 = ticks w" by (simp_all add: prim_defs)
  have "delivered e (ticks ?w1) \<noteq> Some SIGUSR1 \<and> delivered e (ticks ?w1) \<noteq> Some SIGUSR2"
    using Suc.prems(3) w1 by (metis add.right_neutral zero_less_Suc)
  then have sl: "fst (sleep e 1 ?w1) = Returns ()" by (simp add: sleep_benign)
  have w2: "kills ?w2 = kills w + 1" "ticks ?w2 = ticks w + 1"
    using w1 by (simp_all add: sleep_fields)
  have step: "child_idle e fuel sp w = child_idle e f sp ?w2"
    using f k0 sl by (simp add: split_beta)
  have a: "\<forall>k<n. kill_ret e (kills ?w2 + k) = 0"
  proof (intro allI impI)
    fix k assume "k < n"
    then have "kill_ret e (kills w + Suc k) = 0" using Suc.prems(1) by (meson Suc_less_eq)
    then show "kill_ret e (kills ?w2 + k) = 0" unfolding w2 by simp
  qed
  have b: "kill_ret e (kills ?w2 + n) \<noteq> 0" using Suc.prems(2) unfolding w2 by simp
  have c: "\<forall>k<n. delivered e (ticks ?w2 + k) \<noteq> Some SIGUSR1
     \<and> delivered e (ticks ?w2 + k) \<noteq> Some SIGUSR2"
  proof (intro allI impI)
    fix k assume "k < n"
    then have "delivered e (ticks w + Suc k) \<noteq> Some SIGUSR1
      \<and> delivered e (ticks w + Suc k) \<noteq> Some SIGUSR2" using Suc.prems(3) by (meson Suc_less_eq)
    then show "delivered e (ticks ?w2 + k) \<noteq> Some SIGUSR1
      \<and> delivered e (ticks ?w2 + k) \<noteq> Some SIGUSR2" unfolding w2 by simp
  qed
  have d: "n < f" using Suc.prems(4) f by simp
  from Suc.IH[OF a b c d] show ?case unfolding step w2 by simp
qed

text \<open>
  Claim C3, as amended. When the file is open and locked and the probe of the invoking
  script first fails at its \<open>n\<close>-th repetition (and no SIGUSR1 or SIGUSR2 arrived during
  the \<open>n\<close> sleeps before), the idle loop ends there and \<open>child_loop\<close> returns 1: the
  process exits with status 1, not with the success status 0 of the claim.
\<close>

theorem child_script_gone_returns_1:
  "0 \<le> open_ret e \<and> (\<forall>k<n. kill_ret e (kills w + 1 + k) = 0) \<and> kill_ret e (kills w + 1 + n) \<noteq> 0
   \<and> (\<forall>k<n. delivered e (ticks w + k) \<noteq> Some SIGUSR1 \<and> delivered e (ticks w + k) \<noteq> Some SIGUSR2)
   \<and> n < fuel \<longrightarrow>
     (lockf_ret e \<noteq> - 1 \<longrightarrow>
        fst (child_loop e fuel filename ppid sp no_block w) = Returns 1
        \<and> ticks (snd (child_loop e fuel filename ppid sp no_block w)) = ticks w + n)
     \<and> (fst (lock_descriptor e req w) \<noteq> 0 \<longrightarrow>
        fst (child_loop_req e fuel req ppid sp w) = Returns 1
        \<and> ticks (snd (child_loop_req e fuel req ppid sp w)) = ticks w + n)"
proof (intro impI, elim conjE)
  assume o: "0 \<le> open_ret e"
    and a: "\<forall>k<n. kill_ret e (kills w + 1 + k) = 0"
    and b: "kill_ret e (kills w + 1 + n) \<noteq> 0"
    and c: "\<forall>k<n. delivered e (ticks w + k) \<noteq> Some SIGUSR1 \<and> delivered e (ticks w + k) \<noteq> Some SIGUSR2"
    and d: "n < fuel"
  have idle: "fst (child_idle e fuel sp (locked_world e ppid evs w)) = Returns ()
      \<and> ticks (snd (child_idle e fuel sp (locked_world e ppid evs w))) = ticks w + n" for evs
    using child_idle_ends[of n e "locked_world e ppid evs w" fuel sp] a b c d
    by (simp add: locked_world_fields)
  show "(lockf_ret e \<noteq> - 1 \<longrightarrow>
        fst (child_loop e fuel filename ppid sp no_block w) = Returns 1
        \<and> ticks (snd (child_loop e fuel filename ppid sp no_block w)) = ticks w + n)
     \<and> (fst (lock_descriptor e req w) \<noteq> 0 \<longrightarrow>
        fst (child_loop_req e fuel req ppid sp w) = Returns 1
        \<and> ticks (snd (child_loop_req e fuel req ppid sp w)) = ticks w + n)"
  proof (intro conjI impI)
    assume l: "lockf_ret e \<noteq> - 1"
    show "fst (child_loop e fuel filename ppid sp no_block w) = Returns 1"
      unfolding child_loop_locked[OF o l] outcome_case_fst by (simp add: idle)
    show "ticks (snd (child_loop e fuel filename ppid sp no_block w)) = ticks w + n"
      unfolding child_loop_locked[OF o l] outcome_case_snd by (simp add: idle)
  next
    assume l: "fst (lock_descriptor e req w) \<noteq> 0"
    show "fst (child_loop_req e fuel req ppid sp w) = Returns 1"
      unfolding child_loop_req_locked[OF o l] outcome_case_fst by (simp add: idle)
    show "ticks (snd (child_loop_req e fuel req ppid sp w)) = ticks w + n"
      unfolding child_loop_req_locked[OF o l] outcome_case_snd by (simp add: idle)
  qed
qed

theorem child_script_gone_returns_1_witness:
  "0 \<le> open_ret (env_gone 2) \<and> kill_ret (env_gone 2) (kills (world0 []) + 1 + 2) \<noteq> 0
   \<and> lockf_ret (env_gone 2) \<noteq> - 1
   \<and> fst (lock_descriptor (env_gone 2) (req0\<lparr>req_type := LOCKF\<rparr>) (world0 [])) \<noteq> 0
   \<and> fst (child_loop (env_gone 2) 3 ''lockfile'' 100 50 0 (world0 [])) = Returns 1
   \<and> fst (child_loop_req (env_gone 2) 3 (req0\<lparr>req_type := LOCKF\<rparr>) 100 50 (world0 []))
       = Returns 1"
  using child_script_gone_returns_1 [of "env_gone 2" 2 "world0 []" 3 "''lockfile''" 100 50 0
      "req0\<lparr>req_type := LOCKF\<rparr>"]
  by (simp add: env_gone_simps world0_def lock_descriptor_def req0_def prim_defs)

text \<open>
  The claim as stated fails: the script is gone at the third probe, and the child returns 1.
\<close>

theorem child_script_gone_counterexample:
  "fst (child_loop (env_gone 2) 3 ''lockfile'' 100 50 0 (world0 [])) = Returns 1
   \<and> fst (child_loop (env_gone 2) 3 ''lockfile'' 100 50 0 (world0 [])) \<noteq> Returns 0
   \<and> filter is_kill (trace (snd (child_loop (env_gone 2) 3 ''lockfile'' 100 50 0 (world0 []))))
       = [Kill 100 SIGUSR1, Kill 50 0, Kill 50 0, Kill 50 0]"
  by (simp add: child_loop_def Let_def env_gone_simps world0_def prim_defs eval_nat_numeral
      sleep_def is_kill_def)

section \<open>The pid written to the file\<close>













section \<open>Unlocking: the budget of the polling loop\<close>

lemma unlock_poll_all_sent:
  "n = nat (T - time) \<Longrightarrow> 0 \<le> time \<Longrightarrow> time \<le> T \<Longrightarrow> 0 < T \<Longrightarrow> T < 2147483647 \<Longrightarrow>
   locked \<noteq> 0 \<Longrightarrow> \<forall>k<n. 0 \<le> kill_ret e (kills w + k) \<Longrightarrow> n < fuel \<Longrightarrow>
   unlock_poll e fuel pid locked T time w =
     (Returns (T + 1),
      w\<lparr>trace := trace w @ concat (replicate n [Kill pid SIGUSR2, Usleep 1100]),
        kills := kills w + n\<rparr>)"
proof (induction n arbitrary: time w fuel)
  case 0
  then obtain f where f: "fuel = Suc f" by (cases fuel) auto
  from 0 have "time = T" by simp
  with 0 f show ?case by (simp add: int32_id)
next
  case (Suc n)
  then obtain f where f: "fuel = Suc f" by (cases fuel) auto
  from Suc.prems have lt: "time < T" by linarith
  have "0 \<le> kill_ret e (kills w + 0)" using Suc.prems(7) by blast
  then have k0: "\<not> kill_ret e (kills w) < 0" by simp
  let ?w1 = "usleep (1000 + 100) (snd (kill e pid SIGUSR2 w))"
  have w1: "kills ?w1 = kills w + 1" "trace ?w1 = trace w @ [Kill pid SIGUSR2, Usleep 1100]"
    by (simp_all add: prim_defs)
  have n: "n = nat (T - (time + 1))" using Suc.prems by linarith
  have a: "\<forall>k<n. 0 \<le> kill_ret e (kills ?w1 + k)"
  proof (intro allI impI)
    fix k assume "k < n"
    then have "0 \<le> kill_ret e (kills w + Suc k)" using Suc.prems(7) by (meson Suc_less_eq)
    then show "0 \<le> kill_ret e (kills ?w1 + k)" unfolding w1 by simp
  qed
  have i32: "int32 (time + 1) = time + 1" using Suc.prems lt by (simp add: int32_id)
  have ih: "unlock_poll e f pid locked T (time + 1) ?w1 =
     (Returns (T + 1),
      ?w1\<lparr>trace := trace ?w1 @ concat (replicate n [Kill pid SIGUSR2, Usleep 1100]),
        kills := kills ?w1 + n\<rparr>)"
    using Suc.IH[OF n _ _ Suc.prems(4) Suc.prems(5) Suc.prems(6) a, of f] Suc.prems f lt
    by simp
  have step: "unlock_poll e fuel pid locked T time w = unlock_poll e f pid locked T (time + 1) ?w1"
    using f lt k0 Suc.prems(6) by (simp add: i32 Let_def kill_def)
  show ?case unfolding step ih by (simp add: prim_defs)
qed

text \<open>
  When every send succeeds until the budget is used up, \<open>time\<close> has passed the budget by
  one when the loop is left, the test \<open>time == timeout\<close> fails and the result is 0.
\<close>

lemma unlock_signal_budget_used_up:
  assumes "0 < timeout" "timeout * 10 < 2147483647" "locked \<noteq> 0"
    and "\<forall>k < nat (timeout * 10). 0 \<le> kill_ret e (kills w + k)"
    and "nat (timeout * 10) < fuel"
  shows "unlock_signal e fuel pid locked timeout w =
     (Returns 0,
      w\<lparr>trace := trace w @ concat (replicate (nat (timeout * 10)) [Kill pid SIGUSR2, Usleep 1100]),
        kills := kills w + nat (timeout * 10)\<rparr>)"
proof -
  have t: "int32 (timeout * 10) = timeout * 10" using assms by (simp add: int32_id)
  have "unlock_poll e fuel pid locked (timeout * 10) 0 w =
     (Returns (timeout * 10 + 1),
      w\<lparr>trace := trace w @ concat (replicate (nat (timeout * 10)) [Kill pid SIGUSR2, Usleep 1100]),
        kills := kills w + nat (timeout * 10)\<rparr>)"
    using assms by (intro unlock_poll_all_sent) auto
  then show ?thesis by (simp add: unlock_signal_def t Let_def)
qed

lemma read_pid_1234: "read_pid (Some ''1234'') = 1234"
  by (simp add: read_pid_def MAX_PID_LEN_def c_str_def NUL_def strtol_def isspace_def
      strtol_sign_def deref_def isdigit_def digit_val_def clamp_long_def LONG_MAX_def
      LONG_MIN_def int32_def newline_def Let_def)

lemma env_held_simps:
  "open_ret (env_held bs) = 3" "lockf_ret (env_held bs) = - 1" "read_ret (env_held bs) = Some bs"
  "kill_ret (env_held bs) k = 0"
  by (simp_all add: env_held_def env0_def)

lemma unlock_find_held:
  "unlock_find (env_held ''1234'') (Some ''lockfile'') (world0 ''1234'') =
     (Inr (- 1, 1234),
      (world0 ''1234'')\<lparr>trace := [Open (Some ''lockfile''), Lockf F_TEST, Read 10]\<rparr>)"
  by (simp add: unlock_find_def env_held_simps read_pid_1234 Let_def prim_defs world0_def
      MAX_PID_LEN_def)

lemma unlock_find_held_req:
  "unlock_find (env_held ''1234'') (req_filename (req0\<lparr>req_filename := Some ''lockfile'',
       req_timeout := 1\<rparr>)) (world0 ''1234'') =
     (Inr (- 1, 1234),
      (world0 ''1234'')\<lparr>trace := [Open (Some ''lockfile''), Lockf F_TEST, Read 10]\<rparr>)"
  by (simp add: unlock_find_held req0_def)

text \<open>
  Claim C2. On a locked file with \<open>timeout > 0\<close>, when every send succeeds until the budget
  of \<open>timeout * 10\<close> repetitions is used up, \<open>unlock_file\<close> reports a timeout and returns
  nonzero. The code returns 0 there and prints nothing: with a timeout of 1 it sends ten
  signals, leaves the loop with \<open>time = 11\<close>, and \<open>time == timeout\<close> compares 11 with 10.
  Both source files behave so.
\<close>

theorem unlock_budget_used_up_returns_0:
  "fst (unlock_file (env_held ''1234'') 11 ''lockfile'' 1 0 (world0 ''1234'')) = Returns 0
   \<and> filter is_kill
        (trace (snd (unlock_file (env_held ''1234'') 11 ''lockfile'' 1 0 (world0 ''1234''))))
       = replicate 10 (Kill 1234 SIGUSR2)
   \<and> Printf ''Timed out''
        \<notin> set (trace (snd (unlock_file (env_held ''1234'') 11 ''lockfile'' 1 0 (world0 ''1234''))))
   \<and> fst (unlock_file_req (env_held ''1234'') 11
        (req0\<lparr>req_filename := Some ''lockfile'', req_timeout := 1\<rparr>) (world0 ''1234''))
       = Returns 0"
proof -
  let ?w = "(world0 ''1234'')\<lparr>trace := [Open (Some ''lockfile''), Lockf F_TEST, Read 10]\<rparr>"
  have "unlock_signal (env_held ''1234'') 11 1234 (- 1) 1 ?w =
     (Returns 0,
      ?w\<lparr>trace := trace ?w @ concat (replicate (nat (1 * 10)) [Kill 1234 SIGUSR2, Usleep 1100]),
        kills := kills ?w + nat (1 * 10)\<rparr>)"
    by (rule unlock_signal_budget_used_up) (simp_all add: env_held_simps)
  then show ?thesis
    by (simp add: unlock_file_def unlock_file_req_def unlock_find_held unlock_find_held_req
        eval_nat_numeral is_kill_def req0_def)
qed

text \<open>
  The timeout is reported only when a send fails in the last repetition of the budget: here
  the tenth send fails.
\<close>

lemma unlock_last_send_fails_times_out:
  "unlock_signal (env0\<lparr>kill_ret := (\<lambda>k. if k < 9 then 0 else - 1)\<rparr>) 11 1234 (- 1) 1 (world0 []) =
     (Returns 1,
      (world0 [])\<lparr>trace := concat (replicate 9 [Kill 1234 SIGUSR2, Usleep 1100])
                     @ [Kill 1234 SIGUSR2, Printf ''Timed out''],
                   kills := 10\<rparr>)"
  by (simp add: unlock_signal_def Let_def eval_nat_numeral env0_def world0_def prim_defs int32_def)

section \<open>Unlocking: the pid read from the file\<close>

lemmas strtol_eval = read_pid_def MAX_PID_LEN_def c_str_def NUL_def strtol_def isspace_def
  strtol_sign_def deref_def isdigit_def digit_val_def clamp_long_def LONG_MAX_def
  LONG_MIN_def int32_def newline_def Let_def

lemma isdigit_facts:
  "isdigit c \<Longrightarrow> \<not> isspace c \<and> c \<noteq> CHR ''-'' \<and> c \<noteq> CHR ''+'' \<and> c \<noteq> NUL"
  by (auto simp add: isdigit_def isspace_def NUL_def)

lemma digit_val_range: "isdigit c \<Longrightarrow> 0 \<le> digit_val c \<and> digit_val c \<le> 9"
  by (auto simp add: isdigit_def digit_val_def)

lemma deref_c_str: "deref (c_str t) = deref t"
  by (cases t) (simp_all add: c_str_def deref_def)

lemma strtol_digits_stop: "\<not> isdigit (deref t) \<Longrightarrow> strtol_digits acc t = (acc, t)"
  by (cases t) (simp_all add: deref_def)

lemma strtol_digits_append:
  "\<forall>c \<in> set ds. isdigit c \<Longrightarrow> \<not> isdigit (deref t) \<Longrightarrow>
   strtol_digits acc (ds @ t) = (fst (strtol_digits acc ds), t)"
  by (induction ds arbitrary: acc) (simp_all add: strtol_digits_stop)

lemma strtol_digits_bound:
  "0 \<le> acc \<Longrightarrow>
   0 \<le> fst (strtol_digits acc s) \<and> fst (strtol_digits acc s) < (acc + 1) * 10 ^ length s"
proof (induction s arbitrary: acc)
  case Nil
  then show ?case by simp
next
  case (Cons c cs)
  show ?case
  proof (cases "isdigit c")
    case False
    have p: "(1::int) \<le> 10 * 10 ^ length cs"
      using one_le_power[of "10::int" "Suc (length cs)"] by simp
    then have "acc * 1 \<le> acc * (10 * 10 ^ length cs)"
      using Cons.prems by (intro mult_left_mono) simp_all
    with False Cons.prems p show ?thesis by (simp add: algebra_simps)
  next
    case True
    let ?a = "acc * 10 + digit_val c"
    from True have d: "0 \<le> digit_val c" "digit_val c \<le> 9" by (simp_all add: digit_val_range)
    with Cons.prems have a: "0 \<le> ?a" by simp
    from Cons.IH[OF a] have ih: "0 \<le> fst (strtol_digits ?a cs)"
      "fst (strtol_digits ?a cs) < (?a + 1) * 10 ^ length cs" by simp_all
    have "?a + 1 \<le> (acc + 1) * 10" using d by simp
    then have "(?a + 1) * 10 ^ length cs \<le> ((acc + 1) * 10) * 10 ^ length cs"
      by (intro mult_right_mono) simp_all
    also have "\<dots> = (acc + 1) * (10 * 10 ^ length cs)" by (simp only: mult.assoc)
    finally have "fst (strtol_digits ?a cs) < (acc + 1) * (10 * 10 ^ length cs)"
      using ih(2) by linarith
    with ih(1) True show ?thesis by simp
  qed
qed

text \<open>A string that starts with digits, of a value that fits \<open>long\<close>.\<close>

lemma strtol_digit_string:
  assumes "ds \<noteq> []" "\<forall>c \<in> set ds. isdigit c" "\<not> isdigit (deref t)" "length ds \<le> 18"
  shows "strtol (ds @ t) = (fst (strtol_digits 0 ds), t)"
proof -
  from assms obtain c cs where ds: "ds = c # cs" by (cases ds) auto
  with assms have c: "isdigit c" by simp
  then have f: "\<not> isspace c" "c \<noteq> CHR ''-''" "c \<noteq> CHR ''+''" by (simp_all add: isdigit_facts)
  have sg: "strtol_sign (dropWhile isspace (ds @ t)) = (False, ds @ t)"
    using ds f by (simp add: strtol_sign_def)
  have dg: "isdigit (deref (ds @ t))" using ds c by (simp add: deref_def)
  from strtol_digits_bound[of 0 ds] have "0 \<le> fst (strtol_digits 0 ds)"
    "fst (strtol_digits 0 ds) < 10 ^ length ds" by simp_all
  moreover have "(10::int) ^ length ds \<le> 10 ^ 18" using assms(4) by (intro power_increasing) simp_all
  ultimately have cl: "clamp_long (fst (strtol_digits 0 ds)) = fst (strtol_digits 0 ds)"
    by (simp add: clamp_long_def LONG_MAX_def LONG_MIN_def)
  show ?thesis
    by (simp add: strtol_def sg dg strtol_digits_append[OF assms(2) assms(3)] cl)
qed

lemma c_str_append: "NUL \<notin> set ds \<Longrightarrow> c_str (ds @ t) = ds @ c_str t"
  unfolding c_str_def by (rule takeWhile_append2) auto

lemma read_pid_digit_string:
  assumes "ds \<noteq> []" "\<forall>c \<in> set ds. isdigit c" "\<not> isdigit (deref tail)"
    "length (ds @ tail) \<le> MAX_PID_LEN"
  shows "read_pid (Some (ds @ tail)) =
     (if deref tail = NUL \<or> deref tail = newline then int32 (fst (strtol_digits 0 ds)) else 0)"
proof -
  have n: "NUL \<notin> set ds" using assms(2) isdigit_facts by blast
  have l: "length ds \<le> 18" using assms(4) by (simp add: MAX_PID_LEN_def)
  have nd: "\<not> isdigit (deref (c_str tail))" using assms(3) by (simp add: deref_c_str)
  have "strtol (c_str (ds @ tail)) = (fst (strtol_digits 0 ds), c_str tail)"
    unfolding c_str_append[OF n] by (rule strtol_digit_string[OF assms(1) assms(2) nd l])
  then show ?thesis
    using assms(1) assms(4) by (auto simp add: read_pid_def Let_def deref_c_str)
qed

lemma unlock_no_pid:
  assumes "0 \<le> open_ret e" "read_pid (read_ret e) = 0"
  shows "unlock_find e fn w =
     (Inl 1,
      w\<lparr>trace := trace w @ [Open fn, Lockf F_TEST]
          @ (if lockf_ret e = 0 then [Printf ''File %s was not locked''] else [])
          @ [Read MAX_PID_LEN, Printf ''Failed to read pid from file %s'']\<rparr>)"
  using assms by (simp add: unlock_find_def Let_def prim_defs)

text \<open>
  Claim C6, as amended. When the bytes read are a run of digits followed by a tail (ten
  bytes at most), the pid is the value of the digits, cast to \<open>int\<close>, if the tail is empty
  or starts with a NUL byte or a line feed, whatever follows that first byte; it is 0 if the
  tail starts with any other byte. When the pid is 0, \<open>unlock_file\<close> returns 1 and sends
  no signal, in both source files.
\<close>

theorem unlock_pid_parse:
  "(ds \<noteq> [] \<and> (\<forall>c \<in> set ds. isdigit c) \<and> \<not> isdigit (deref tail)
      \<and> length (ds @ tail) \<le> MAX_PID_LEN \<longrightarrow>
      read_pid (Some (ds @ tail)) =
        (if deref tail = NUL \<or> deref tail = newline then int32 (fst (strtol_digits 0 ds))
         else 0))
   \<and> (0 \<le> open_ret e \<and> read_pid (read_ret e) = 0 \<longrightarrow>
        fst (unlock_file e fuel filename timeout no_block w) = Returns 1
        \<and> filter is_kill (new_events w (snd (unlock_file e fuel filename timeout no_block w))) = []
        \<and> fst (unlock_file_req e fuel req w) = Returns 1
        \<and> filter is_kill (new_events w (snd (unlock_file_req e fuel req w))) = [])"
  by (simp add: read_pid_digit_string unlock_file_def unlock_file_req_def unlock_no_pid ev_defs)

theorem unlock_pid_parse_witness:
  "isdigit CHR ''1'' \<and> isdigit CHR ''2'' \<and> isdigit CHR ''3''
   \<and> \<not> isdigit (deref (newline # ''abc''))
   \<and> length (''123'' @ newline # ''abc'') \<le> MAX_PID_LEN
   \<and> read_pid (Some (''123'' @ newline # ''abc'')) = 123
   \<and> 0 \<le> open_ret (env0\<lparr>read_ret := Some ''12 3''\<rparr>)
   \<and> read_pid (read_ret (env0\<lparr>read_ret := Some ''12 3''\<rparr>)) = 0
   \<and> fst (unlock_file (env0\<lparr>read_ret := Some ''12 3''\<rparr>) 3 ''lockfile'' 0 0 (world0 ''12 3''))
       = Returns 1
   \<and> filter is_kill (new_events (world0 ''12 3'')
        (snd (unlock_file (env0\<lparr>read_ret := Some ''12 3''\<rparr>) 3 ''lockfile'' 0 0
           (world0 ''12 3'')))) = []"
  using unlock_pid_parse [of "''123''" "newline # ''abc''" "env0\<lparr>read_ret := Some ''12 3''\<rparr>"
      3 "''lockfile''" 0 0 "world0 ''12 3''" req0]
  by (simp add: env0_def strtol_eval)

text \<open>
  The claim as stated fails for a line feed followed by further bytes: the file holds
  \<open>123\<close>, a line feed and \<open>abc\<close>; the pid 123 is accepted, SIGUSR2 is sent to it and
  the result is 0.
\<close>

theorem unlock_newline_then_bytes_counterexample:
  "unlock_file (env0\<lparr>read_ret := Some (''123'' @ newline # ''abc'')\<rparr>) 3 ''lockfile'' 0 0
     (world0 (''123'' @ newline # ''abc'')) =
   (Returns 0,
    (world0 (''123'' @ newline # ''abc''))
      \<lparr>trace := [Open (Some ''lockfile''), Lockf F_TEST, Printf ''File %s was not locked'',
                 Read 10, Kill 123 SIGUSR2],
       kills := 1\<rparr>)"
  by (simp add: unlock_file_def unlock_find_def unlock_signal_def env0_def world0_def prim_defs
      eval_nat_numeral strtol_eval)

text \<open>Whenever the polling loop starts, its first event is a signal to the pid it was given.\<close>

lemma unlock_poll_first_kill:
  "0 \<le> T \<Longrightarrow> 0 < fuel \<Longrightarrow>
   \<exists>evs. trace (snd (unlock_poll e fuel pid locked T 0 w)) = trace w @ Kill pid SIGUSR2 # evs"
proof -
  assume T: "0 \<le> T" and "0 < fuel"
  then obtain f where f: "fuel = Suc f" by (cases fuel) auto
  have grows: "\<exists>evs. trace (snd (unlock_poll e g pid locked T t v)) = trace v @ evs" for g t v
  proof (induction g arbitrary: t v)
    case 0
    show ?case by simp
  next
    case (Suc g)
    let ?v1 = "usleep (1000 + 100) (snd (kill e pid SIGUSR2 v))"
    from Suc[of "int32 (t + 1)" ?v1] obtain evs where
      "trace (snd (unlock_poll e g pid locked T (int32 (t + 1)) ?v1)) = trace ?v1 @ evs" by blast
    then have "trace (snd (unlock_poll e g pid locked T (int32 (t + 1)) ?v1)) =
       trace v @ Kill pid SIGUSR2 # Usleep 1100 # evs" by (simp add: prim_defs)
    then show ?case by (auto simp add: Let_def prim_defs)
  qed
  let ?w1 = "usleep (1000 + 100) (snd (kill e pid SIGUSR2 w))"
  from grows[of f "int32 (0 + 1)" ?w1] obtain evs where
    "trace (snd (unlock_poll e f pid locked T (int32 (0 + 1)) ?w1)) = trace ?w1 @ evs" by blast
  then have "trace (snd (unlock_poll e f pid locked T (int32 (0 + 1)) ?w1)) =
     trace w @ Kill pid SIGUSR2 # Usleep 1100 # evs" by (simp add: prim_defs)
  then show ?thesis using T f by (auto simp add: Let_def prim_defs)
qed

lemma unlock_signal_first_kill:
  assumes "0 \<le> int32 (timeout * 10)" "0 < fuel"
  shows "\<exists>evs. trace (snd (unlock_signal e fuel pid locked timeout w)) =
     trace w @ Kill pid SIGUSR2 # evs"
proof -
  from unlock_poll_first_kill[OF assms, of e pid locked w] obtain evs where
    t: "trace (snd (unlock_poll e fuel pid locked (int32 (timeout * 10)) 0 w)) =
       trace w @ Kill pid SIGUSR2 # evs" by blast
  show ?thesis
  proof (cases "unlock_poll e fuel pid locked (int32 (timeout * 10)) 0 w")
    case (Pair r w1)
    with t have "trace w1 = trace w @ Kill pid SIGUSR2 # evs" by simp
    with Pair show ?thesis
      by (cases r) (auto simp add: unlock_signal_def Let_def prim_defs)
  qed
qed

text \<open>
  A negative value that \<open>strtol\<close> takes from at most ten bytes has at most nine digits, so
  the cast to \<open>int\<close> keeps it.
\<close>

lemma strtol_negative:
  assumes "strtol s = (v, rest)" "v < 0" "length s \<le> 10"
  shows "- 1000000000 < v"
proof -
  obtain neg ds where sg: "strtol_sign (dropWhile isspace s) = (neg, ds)"
    by (cases "strtol_sign (dropWhile isspace s)")
  have dg: "isdigit (deref ds)"
  proof (rule ccontr)
    assume "\<not> isdigit (deref ds)"
    with assms(1) sg have "v = 0" by (simp add: strtol_def)
    with assms(2) show False by simp
  qed
  let ?v0 = "fst (strtol_digits 0 ds)"
  from strtol_digits_bound[of 0 ds] have b: "0 \<le> ?v0" "?v0 < 10 ^ length ds" by simp_all
  have v: "v = clamp_long (if neg then - ?v0 else ?v0)"
    using assms(1) sg dg by (simp add: strtol_def split_beta)
  have neg: "neg"
  proof (rule ccontr)
    assume "\<not> neg"
    with v b(1) have "0 \<le> v" by (simp add: clamp_long_def LONG_MAX_def LONG_MIN_def)
    with assms(2) show False by simp
  qed
  have "length ds < length (dropWhile isspace s)"
    using sg neg by (cases "dropWhile isspace s") (auto simp add: strtol_sign_def split: if_splits)
  also have "\<dots> \<le> length s" by (rule length_dropWhile_le)
  finally have "length ds \<le> 9" using assms(3) by simp
  then have "(10::int) ^ length ds \<le> 10 ^ 9" by (intro power_increasing) simp_all
  with b have "?v0 < 1000000000" by simp
  with v neg b(1) show ?thesis by (simp add: clamp_long_def LONG_MAX_def LONG_MIN_def)
qed

lemma read_pid_negative:
  assumes "strtol (c_str (take MAX_PID_LEN bytes)) = (v, rest)" "v < 0"
    "deref rest = NUL \<or> deref rest = newline"
  shows "read_pid (Some bytes) = v"
proof -
  have "length (c_str (take MAX_PID_LEN bytes)) \<le> 10"
    unfolding c_str_def
    by (rule order_trans[OF length_takeWhile_le]) (simp add: MAX_PID_LEN_def)
  from strtol_negative[OF assms(1) assms(2) this] assms(2) have "int32 v = v"
    by (simp add: int32_id)
  moreover have "take MAX_PID_LEN bytes \<noteq> []"
  proof
    assume "take MAX_PID_LEN bytes = []"
    with assms(1) have "v = 0"
      by (simp add: c_str_def strtol_def strtol_sign_def deref_def isdigit_def NUL_def)
    with assms(2) show False by simp
  qed
  ultimately show ?thesis using assms(1) assms(3) by (auto simp add: read_pid_def Let_def)
qed

text \<open>
  Claim C10. The validation of the pid rejects the value 0 and a wrong byte after the
  number, and nothing else: when \<open>strtol\<close> takes a negative value from the bytes read and
  the byte after it is accepted, that negative value is the pid, and the first signal of the
  polling loop is SIGUSR2 sent to it (for a budget that lets the loop start), in both source
  files.
\<close>

theorem unlock_signals_negative_pid:
  "read_ret e = Some bytes \<and> strtol (c_str (take MAX_PID_LEN bytes)) = (v, rest) \<and> v < 0
   \<and> (deref rest = NUL \<or> deref rest = newline) \<and> 0 \<le> open_ret e \<and> 0 < fuel \<longrightarrow>
     read_pid (Some bytes) = v
     \<and> (0 \<le> int32 (timeout * 10) \<longrightarrow>
          hd (filter is_kill (new_events w (snd (unlock_file e fuel filename timeout no_block w))))
            = Kill v SIGUSR2)
     \<and> (0 \<le> int32 ((if req_no_block req \<noteq> 0 then 0 else req_timeout req) * 10) \<longrightarrow>
          hd (filter is_kill (new_events w (snd (unlock_file_req e fuel req w))))
            = Kill v SIGUSR2)"
proof (intro impI, elim conjE)
  assume r: "read_ret e = Some bytes" and s: "strtol (c_str (take MAX_PID_LEN bytes)) = (v, rest)"
    and v: "v < 0" and d: "deref rest = NUL \<or> deref rest = newline"
    and o: "0 \<le> open_ret e" and f: "0 < fuel"
  have p: "read_pid (Some bytes) = v" by (rule read_pid_negative[OF s v d])
  obtain w4 where w4: "unlock_find e fn w = (Inr (lockf_ret e, v), w4 fn)"
    and tw4: "filter is_kill (drop (length (trace w)) (trace (w4 fn))) = []"
    and tl: "length (trace w) \<le> length (trace (w4 fn))" for fn
  proof
    fix fn
    let ?w4 = "\<lambda>fn. snd (unlock_find e fn w)"
    show "unlock_find e fn w = (Inr (lockf_ret e, v), ?w4 fn)"
      using o r p v by (simp add: unlock_find_def Let_def)
    show "filter is_kill (drop (length (trace w)) (trace (?w4 fn))) = []"
      using o r p v by (simp add: unlock_find_def Let_def prim_defs is_kill_def)
    show "length (trace w) \<le> length (trace (?w4 fn))"
      using o r p v by (simp add: unlock_find_def Let_def prim_defs)
  qed
  have first: "hd (filter is_kill (new_events w (snd (unlock_signal e fuel v locked t (w4 fn))))) =
      Kill v SIGUSR2" if "0 \<le> int32 (t * 10)" for t locked fn
  proof -
    from unlock_signal_first_kill[OF that f, of e v locked "w4 fn"] obtain evs where
      "trace (snd (unlock_signal e fuel v locked t (w4 fn))) = trace (w4 fn) @ Kill v SIGUSR2 # evs"
      by blast
    then have "new_events w (snd (unlock_signal e fuel v locked t (w4 fn))) =
        drop (length (trace w)) (trace (w4 fn)) @ Kill v SIGUSR2 # evs"
      using tl[of fn] by (simp add: new_events_def)
    then show ?thesis using tw4[of fn] by (simp add: is_kill_def)
  qed
  show "read_pid (Some bytes) = v
     \<and> (0 \<le> int32 (timeout * 10) \<longrightarrow>
          hd (filter is_kill (new_events w (snd (unlock_file e fuel filename timeout no_block w))))
            = Kill v SIGUSR2)
     \<and> (0 \<le> int32 ((if req_no_block req \<noteq> 0 then 0 else req_timeout req) * 10) \<longrightarrow>
          hd (filter is_kill (new_events w (snd (unlock_file_req e fuel req w))))
            = Kill v SIGUSR2)"
    using p first by (auto simp add: unlock_file_def unlock_file_req_def w4)
qed

theorem unlock_signals_negative_pid_witness:
  "strtol (c_str (take MAX_PID_LEN ''-1'')) = (- 1, []) \<and> deref [] = NUL
   \<and> read_pid (Some ''-1'') = - 1
   \<and> 0 \<le> int32 (0 * 10)
   \<and> hd (filter is_kill (new_events (world0 ''-1'')
        (snd (unlock_file (env_held ''-1'') 3 ''lockfile'' 0 0 (world0 ''-1'')))))
       = Kill (- 1) SIGUSR2
   \<and> hd (filter is_kill (new_events (world0 ''-1'')
        (snd (unlock_file_req (env_held ''-1'') 3 (req0\<lparr>req_filename := Some ''lockfile''\<rparr>)
           (world0 ''-1''))))) = Kill (- 1) SIGUSR2"
  using unlock_signals_negative_pid [of "env_held ''-1''" "''-1''" "- 1" "[]" 3 0 "world0 ''-1''"
      "''lockfile''" 0 "req0\<lparr>req_filename := Some ''lockfile''\<rparr>"]
  by (simp add: env_held_simps req0_def strtol_eval)

section \<open>The command line\<close>

lemma parse_opts_Inr:
  "parse_opts opts (t, nb, u) w = (Inr (t', nb', u'), w') \<Longrightarrow>
   w' = w
   \<and> (CHR ''t'' \<in> fst ` set opts \<longrightarrow> 0 \<le> t') \<and> (CHR ''t'' \<notin> fst ` set opts \<longrightarrow> t' = t)
   \<and> (CHR ''n'' \<in> fst ` set opts \<longrightarrow> nb' = 1) \<and> (CHR ''n'' \<notin> fst ` set opts \<longrightarrow> nb' = nb)"
proof (induction opts arbitrary: t nb u)
  case Nil
  then show ?case by simp
next
  case (Cons a opts)
  obtain opt optarg where a: "a = (opt, optarg)" by (cases a)
  consider (t) "opt = CHR ''t''" | (n) "opt = CHR ''n''" | (u) "opt = CHR ''u''"
    | (other) "opt \<noteq> CHR ''t''" "opt \<noteq> CHR ''n''" "opt \<noteq> CHR ''u''" by blast
  then show ?case
  proof cases
    case t
    let ?t1 = "int32 (fst (strtol optarg))"
    from Cons.prems a t have ok: "\<not> (deref (snd (strtol optarg)) \<noteq> NUL \<or> ?t1 < 0)"
      by (auto simp add: split_beta Let_def split: if_splits)
    with Cons.prems a t have "parse_opts opts (?t1, nb, u) w = (Inr (t', nb', u'), w')"
      by (simp add: split_beta Let_def)
    from Cons.IH[OF this] ok a t show ?thesis by auto
  next
    case n
    with Cons.prems a have "parse_opts opts (t, 1, u) w = (Inr (t', nb', u'), w')" by simp
    from Cons.IH[OF this] a n show ?thesis by auto
  next
    case u
    with Cons.prems a have "parse_opts opts (t, nb, 1) w = (Inr (t', nb', u'), w')" by simp
    from Cons.IH[OF this] a u show ?thesis by auto
  next
    case other
    with Cons.prems a show ?thesis by simp
  qed
qed

lemma parse_opts_Inl:
  "parse_opts opts st w = (Inl r, w') \<Longrightarrow> r = 1 \<and> (\<exists>m. trace w' = trace w @ [Printf m])"
proof (induction opts arbitrary: st)
  case Nil
  then show ?case by simp
next
  case (Cons a opts)
  obtain opt optarg where a: "a = (opt, optarg)" by (cases a)
  obtain t nb u where st: "st = (t, nb, u)" by (cases st)
  from Cons.prems a st consider
    (stop) "r = 1" "\<exists>m. trace w' = trace w @ [Printf m]"
    | (go) st1 where "parse_opts opts st1 w = (Inl r, w')"
    by (auto simp add: split_beta Let_def prim_defs split: if_splits)
  then show ?case
  proof cases
    case stop
    then show ?thesis by simp
  next
    case go
    then show ?thesis by (rule Cons.IH)
  qed
qed

text \<open>
  \<open>main\<close> of \<open>lock_file.c\<close>: with \<open>-n\<close> and \<open>-t\<close> both given, the run ends with 1 after one
  message and no other action.
\<close>

lemma main_rejects_no_block_with_timeout:
  assumes "CHR ''n'' \<in> fst ` set opts" "CHR ''t'' \<in> fst ` set opts"
  shows "fst (main e fuel opts arg w) = Returns 1
     \<and> (\<exists>m. new_events w (snd (main e fuel opts arg w)) = [Printf m])"
proof (cases "parse_opts opts (- 1, 0, 0) w")
  case (Pair r w1)
  show ?thesis
  proof (cases r)
    case (Inl x)
    with Pair parse_opts_Inl[of opts "(- 1, 0, 0)" w x w1] show ?thesis
      by (auto simp add: main_def new_events_def)
  next
    case (Inr st)
    obtain t nb u where st: "st = (t, nb, u)" by (cases st)
    from Pair Inr st parse_opts_Inr[of opts "- 1" 0 0 w t nb u w1] assms
    have "w1 = w" "0 \<le> t" "nb = 1" by simp_all
    with Pair Inr st show ?thesis by (simp add: main_def new_events_def prim_defs)
  qed
qed

text \<open>Without \<open>-t\<close> the timeout is still \<open>-1\<close> at the check, which lets the run pass.\<close>

lemma main_accepts_no_block_alone:
  assumes "CHR ''t'' \<notin> fst ` set opts" "parse_opts opts (- 1, 0, 0) w = (Inr (t, nb, u), w')"
  shows "\<not> (nb \<noteq> 0 \<and> 0 \<le> t)"
  using parse_opts_Inr[OF assms(2)] assms(1) by simp

text \<open>
  In the second source file the timeout starts at 0, so that it is never negative at the
  check, and every command line with \<open>-n\<close> ends there.
\<close>

lemma parse_opts_req_Inr:
  "parse_opts_req opts (req, u) w = (Inr (req', u'), w') \<Longrightarrow> 0 \<le> req_timeout req \<Longrightarrow>
   w' = w \<and> 0 \<le> req_timeout req'
   \<and> (req_no_block req = 1 \<or> CHR ''n'' \<in> fst ` set opts \<longrightarrow> req_no_block req' = 1)"
proof (induction opts arbitrary: req u)
  case Nil
  then show ?case by auto
next
  case (Cons a opts)
  obtain opt optarg where a: "a = (opt, optarg)" by (cases a)
  from Cons.prems a obtain req1 u1 where
    step: "parse_opts_req opts (req1, u1) w = (Inr (req', u'), w')"
    and t1: "0 \<le> req_timeout req1"
    and n1: "req_no_block req = 1 \<or> opt = CHR ''n'' \<longrightarrow> req_no_block req1 = 1"
    by (auto simp add: split_beta Let_def split: if_splits)
  from Cons.IH[OF step t1] n1 a show ?case by auto
qed

lemma parse_opts_req_Inl:
  "parse_opts_req opts st w = (Inl r, w') \<Longrightarrow> r = 1 \<and> (\<exists>m. trace w' = trace w @ [Printf m])"
proof (induction opts arbitrary: st)
  case Nil
  then show ?case by simp
next
  case (Cons a opts)
  obtain opt optarg where a: "a = (opt, optarg)" by (cases a)
  obtain req u where st: "st = (req, u)" by (cases st)
  from Cons.prems a st consider
    (stop) "r = 1" "\<exists>m. trace w' = trace w @ [Printf m]"
    | (go) st1 where "parse_opts_req opts st1 w = (Inl r, w')"
    by (auto simp add: split_beta Let_def prim_defs split: if_splits)
  then show ?case
  proof cases
    case stop
    then show ?thesis by simp
  next
    case go
    then show ?thesis by (rule Cons.IH)
  qed
qed

lemma main_req_rejects_no_block:
  assumes "CHR ''n'' \<in> fst ` set opts"
  shows "fst (main_req e fuel opts arg w) = Returns 1
     \<and> (\<exists>m. new_events w (snd (main_req e fuel opts arg w)) = [Printf m])"
proof (cases "parse_opts_req opts (req0, 0) w")
  case (Pair r w1)
  show ?thesis
  proof (cases r)
    case (Inl x)
    with Pair parse_opts_req_Inl[of opts "(req0, 0)" w x w1] show ?thesis
      by (auto simp add: main_req_def new_events_def)
  next
    case (Inr st)
    obtain req u where st: "st = (req, u)" by (cases st)
    have "0 \<le> req_timeout req0" by (simp add: req0_def)
    from parse_opts_req_Inr[OF _ this, of opts 0 w req u w1] Pair Inr st assms
    have "w1 = w" "0 \<le> req_timeout req" "req_no_block req = 1" by simp_all
    with Pair Inr st show ?thesis by (simp add: main_req_def new_events_def prim_defs)
  qed
qed

text \<open>
  Claim C4. \<open>-n\<close> together with an explicit timeout is a configuration error, exit status
  1, before any fork, open or signal; \<open>-n\<close> without a timeout is not rejected by this check.
  The second part fails in the second source file: for the command line \<open>-n lockfile\<close> its
  \<open>main\<close> returns 1 with the message of the check and nothing else, while \<open>main\<close> of
  \<open>lock_file.c\<close> goes on to install the handlers and to fork.
\<close>

theorem main_req_rejects_no_block_alone:
  "main_req env0 3 [(CHR ''n'', [])] (Some ''lockfile'') (world0 []) =
     (Returns 1, (world0 [])\<lparr>trace := [Printf ''Cannot set no-block and timeout together'']\<rparr>)
   \<and> take 3 (trace (snd (main env0 3 [(CHR ''n'', [])] (Some ''lockfile'') (world0 [])))) =
       [Signal SIGUSR1, Signal SIGUSR2, Fork]"
  by (simp add: main_req_def main_def req0_def world0_def env0_def prim_defs parent_loop_def
      sleep_def eval_nat_numeral Let_def)

end
